theory Spec2Isabelle
  imports Complex_Main
begin

section \<open>JavaScript string primitives\<close>

text \<open>
  A JavaScript string is modelled as a \<^typ>\<open>string\<close>: one \<^typ>\<open>char\<close> per code unit, for
  code units below 256.  The character classes are those of the regular expressions and
  of \<^verbatim>\<open>String.prototype.trim\<close>: \<^verbatim>\<open>\s\<close> and \<^verbatim>\<open>trim\<close> use the same white-space
  set (tab, line feed, vertical tab, form feed, carriage return, space, no-break space
  among the code units below 256), \<^verbatim>\<open>\d\<close> is \<^verbatim>\<open>[0-9]\<close>.
\<close>

definition isSpace :: "char \<Rightarrow> bool" where
  "isSpace c = (c \<in> set [CHR 0x09, CHR 0x0A, CHR 0x0B, CHR 0x0C, CHR 0x0D, CHR 0x20, CHR 0xA0])"

definition isDigit :: "char \<Rightarrow> bool" where
  "isDigit c = (c \<in> set ''0123456789'')"

definition isUpper :: "char \<Rightarrow> bool" where
  "isUpper c = (c \<in> set ''ABCDEFGHIJKLMNOPQRSTUVWXYZ'')"

definition isLower :: "char \<Rightarrow> bool" where
  "isLower c = (c \<in> set ''abcdefghijklmnopqrstuvwxyz'')"

text \<open>The class \<^verbatim>\<open>[a-zA-Z]\<close>.\<close>

definition isLetter :: "char \<Rightarrow> bool" where
  "isLetter c = (isLower c \<or> isUpper c)"

text \<open>\<^verbatim>\<open>s.trim()\<close>\<close>

definition trim :: "string \<Rightarrow> string" where
  "trim s = rev (dropWhile isSpace (rev (dropWhile isSpace s)))"

text \<open>\<^verbatim>\<open>t.startsWith(p)\<close>\<close>

fun startsWith :: "string \<Rightarrow> string \<Rightarrow> bool" where
  "startsWith t [] = True"
| "startsWith [] (p # ps) = False"
| "startsWith (c # cs) (p # ps) = (c = p \<and> startsWith cs ps)"

text \<open>\<^verbatim>\<open>t.includes(n)\<close>: the needle starts at some position of the text.\<close>

fun includesStr :: "string \<Rightarrow> string \<Rightarrow> bool" where
  "includesStr [] n = (n = [])"
| "includesStr (c # cs) n = (startsWith (c # cs) n \<or> includesStr cs n)"

text \<open>\<^verbatim>\<open>s.split("\n")\<close>: never the empty array; the empty string gives one empty line.\<close>

fun splitNL :: "string \<Rightarrow> string list" where
  "splitNL [] = [[]]"
| "splitNL (c # cs) =
     (let r = splitNL cs in
      if c = CHR 0x0A then [] # r else (c # hd r) # tl r)"

text \<open>\<^verbatim>\<open>s.replace(/\t/g, "    ")\<close>\<close>

definition replaceTabs :: "string \<Rightarrow> string" where
  "replaceTabs s = concat (map (\<lambda>c. if c = CHR 0x09 then ''    '' else [c]) s)"

text \<open>\<^verbatim>\<open>xs.slice(a, b)\<close> for indices within the array: empty when \<open>b \<le> a\<close>.\<close>

definition slice :: "nat \<Rightarrow> nat \<Rightarrow> 'a list \<Rightarrow> 'a list" where
  "slice a b xs = take (b - a) (drop a xs)"

section \<open>The line predicates of the two renderers\<close>

text \<open>
  \<^verbatim>\<open>isAllCaps\<close> of \<^verbatim>\<open>minutes-pdf.ts\<close>.  The source compares the floating-point quotient
  \<^verbatim>\<open>upper / letters.length\<close> with the literal \<^verbatim>\<open>0.7\<close>; for the lengths a string can have
  the correctly rounded quotient exceeds the double \<^verbatim>\<open>0.7\<close> exactly when
  \<open>10 * upper > 7 * letters\<close>, which is what the model computes.
\<close>

definition pdf_isAllCaps :: "string \<Rightarrow> bool" where
  "pdf_isAllCaps text =
     (let letters = filter isLetter text in
      if length letters = 0 then False
      else (let upper = length (filter isUpper letters)
            in 10 * upper > 7 * length letters))"

text \<open>\<^verbatim>\<open>isAllCaps\<close> of the meetings page (the screen renderer).\<close>

definition scr_isAllCaps :: "string \<Rightarrow> bool" where
  "scr_isAllCaps text =
     (let letters = filter isLetter text in
      if length letters = 0 then False
      else 10 * length (filter isUpper letters) > 7 * length letters)"

text \<open>
  The three header patterns \<^verbatim>\<open>/^(\d+)\.\s+/\<close>, \<^verbatim>\<open>/^\d+\.\s+/\<close> and
  \<^verbatim>\<open>/^\d+\.\s+DISCUSSION/\<close> share the prefix \<^verbatim>\<open>^\d+\.\s+\<close>.  Both quantifiers are
  greedy and what follows each run cannot be matched by a character of the run (a period
  is no digit, and neither the end of the pattern nor the letter D needs a white-space
  character), so backtracking never finds another match: the prefix is the longest run of
  digits, non-empty, a period, and the longest run of white space, non-empty.
  \<open>numPrefix t\<close> is \<open>Some (numText, rest)\<close> with \<open>numText\<close> the matched text
  (\<^verbatim>\<open>match[0]\<close>) and \<open>rest\<close> what follows it (\<^verbatim>\<open>trimmed.slice(numText.length)\<close>).
\<close>

definition numPrefix :: "string \<Rightarrow> (string \<times> string) option" where
  "numPrefix t =
     (let ds = takeWhile isDigit t; r = dropWhile isDigit t in
      if ds = [] then None
      else (case r of
              [] \<Rightarrow> None
            | c # r' \<Rightarrow>
                if c \<noteq> CHR ''.'' then None
                else (let ws = takeWhile isSpace r' in
                      if ws = [] then None
                      else Some (ds @ [c] @ ws, dropWhile isSpace r'))))"

text \<open>\<^verbatim>\<open>/^\d+\.\s+/.test(t)\<close>\<close>

definition isNumbered :: "string \<Rightarrow> bool" where
  "isNumbered t = (numPrefix t \<noteq> None)"

text \<open>\<^verbatim>\<open>/^\d+\.\s+DISCUSSION/.test(t)\<close>\<close>

definition isDiscussionHeader :: "string \<Rightarrow> bool" where
  "isDiscussionHeader t =
     (case numPrefix t of None \<Rightarrow> False | Some (n, rest) \<Rightarrow> startsWith rest ''DISCUSSION'')"

text \<open>\<^verbatim>\<open>/^a\.\s/.test(t)\<close>\<close>

fun isItemA :: "string \<Rightarrow> bool" where
  "isItemA (a # b # c # r) = (a = CHR ''a'' \<and> b = CHR ''.'' \<and> isSpace c)"
| "isItemA t = False"

text \<open>\<^verbatim>\<open>isFullWidthLine\<close> of \<^verbatim>\<open>minutes-pdf.ts\<close>.\<close>

definition pdf_isFullWidthLine :: "string \<Rightarrow> bool" where
  "pdf_isFullWidthLine t =
     (startsWith t ''A Worksession'' \<or>
      startsWith t ''A Regular'' \<or>
      startsWith t ''A Combined'' \<or>
      startsWith t ''Present were'' \<or>
      startsWith t ''Also present'' \<or>
      startsWith t ''The Township Clerk advised'' \<or>
      startsWith t ''This meeting'' \<or>
      startsWith t ''http'' \<or>
      startsWith t ''On a motion'' \<or>
      startsWith t ''Hearing no further'')"

text \<open>\<^verbatim>\<open>isFullWidthLine\<close> of the meetings page.\<close>

definition scr_isFullWidthLine :: "string \<Rightarrow> bool" where
  "scr_isFullWidthLine t =
     (startsWith t ''A Worksession'' \<or> startsWith t ''A Regular'' \<or> startsWith t ''A Combined'' \<or>
      startsWith t ''Present were'' \<or> startsWith t ''Also present'' \<or>
      startsWith t ''The Township Clerk advised'' \<or> startsWith t ''This meeting'' \<or>
      startsWith t ''http'' \<or> startsWith t ''On a motion'' \<or> startsWith t ''Hearing no further'')"

text \<open>\<^verbatim>\<open>isBoldLine\<close> of \<^verbatim>\<open>minutes-pdf.ts\<close>, with its early returns.\<close>

definition pdf_isBoldLine :: "string \<Rightarrow> bool \<Rightarrow> bool" where
  "pdf_isBoldLine t inDisc =
     (if pdf_isAllCaps t then True
      else if inDisc then
        (if startsWith t ''Councilmember'' \<or> startsWith t ''Council President'' \<or>
            startsWith t ''Council Vice President'' then True
         else if isItemA t then True
         else False)
      else False)"

section \<open>Segmentation: title block, body, signature lines\<close>

text \<open>
  The test of the title-boundary scan, on a line of the text:
  \<^verbatim>\<open>t = lines[i].trim()\<close> starts with one of the three meeting prefixes.
\<close>

definition isTitleBoundary :: "string \<Rightarrow> bool" where
  "isTitleBoundary l =
     (let t = trim l in
      startsWith t ''A Worksession'' \<or> startsWith t ''A Regular'' \<or> startsWith t ''A Combined'')"

text \<open>
  The title scan, the same loop in both renderers: \<^verbatim>\<open>titleEnd\<close> starts at 0 and becomes
  the index of the first boundary line, where the loop breaks.  \<open>titleScan i ls\<close> runs
  the loop from index \<open>i\<close> over the remaining lines \<open>ls\<close>.
\<close>

fun titleScan :: "nat \<Rightarrow> string list \<Rightarrow> nat" where
  "titleScan i [] = 0"
| "titleScan i (l # ls) = (if isTitleBoundary l then i else titleScan (Suc i) ls)"

definition findTitleEnd :: "string list \<Rightarrow> nat" where
  "findTitleEnd lines = titleScan 0 lines"

text \<open>
  The signature scan, the same loop in both renderers: \<^verbatim>\<open>sigStart\<close> starts at
  \<^verbatim>\<open>lines.length\<close>; the index runs down from \<^verbatim>\<open>lines.length - 1\<close> to 0 and the loop
  breaks at the first line that includes three underscores.  \<open>sigScan n lines\<close> has the
  indices below \<open>n\<close> left to visit.
\<close>

fun sigScan :: "nat \<Rightarrow> string list \<Rightarrow> nat" where
  "sigScan 0 lines = length lines"
| "sigScan (Suc i) lines = (if includesStr (lines ! i) ''___'' then i else sigScan i lines)"

definition findSigStart :: "string list \<Rightarrow> nat" where
  "findSigStart lines = sigScan (length lines) lines"

text \<open>The lines each renderer works on: only the paginated one expands tabs.\<close>

definition pdf_lines :: "string \<Rightarrow> string list" where
  "pdf_lines minutes = splitNL (replaceTabs minutes)"

definition scr_lines :: "string \<Rightarrow> string list" where
  "scr_lines text = splitNL text"

text \<open>\<^verbatim>\<open>lines.slice(0, titleEnd).filter(l => l.trim().length > 0)\<close>\<close>

definition pdf_titleLines :: "string list \<Rightarrow> string list" where
  "pdf_titleLines lines = filter (\<lambda>l. length (trim l) > 0) (slice 0 (findTitleEnd lines) lines)"

text \<open>\<^verbatim>\<open>lines.slice(0, titleEnd).filter(l => l.trim())\<close>: the empty string is falsy.\<close>

definition scr_titleLines :: "string list \<Rightarrow> string list" where
  "scr_titleLines lines = filter (\<lambda>l. trim l \<noteq> []) (slice 0 (findTitleEnd lines) lines)"

text \<open>\<^verbatim>\<open>lines.slice(titleEnd, sigStart)\<close> and \<^verbatim>\<open>lines.slice(sigStart)\<close>, in both renderers.\<close>

definition bodyLines :: "string list \<Rightarrow> string list" where
  "bodyLines lines = slice (findTitleEnd lines) (findSigStart lines) lines"

definition sigLines :: "string list \<Rightarrow> string list" where
  "sigLines lines = drop (findSigStart lines) lines"

section \<open>The body loops\<close>

datatype role = Title | SectionHeader | SectionBody | FullWidth | Blank

text \<open>
  What a body loop decides for one line: its role, its bold flag, its indent level (1 for
  the 36 point section indent), the number prefix of a section header and the text.  In
  the screen renderer the bold flag is the font weight of the element (700 or 400).  In
  the paginated renderer it is the font the loop asks for (the \<^verbatim>\<open>bold\<close> option handed to
  \<^verbatim>\<open>writeText\<close>, or the bold font selected for a header); the font in which the text is
  drawn is decided when the line is placed on a page, in the section on page geometry.
\<close>

record rline =
  role :: role
  bold :: bool
  indentLevel :: nat
  numText :: string
  content :: string

record segstate =
  insideSection :: bool
  inDiscussion :: bool

definition initState :: segstate where
  "initState = \<lparr>insideSection = False, inDiscussion = False\<rparr>"

text \<open>
  The tracking of the Discussion Items section, the same two tests in both loops:
  \<^verbatim>\<open>if (/^\d+\.\s+DISCUSSION/.test(trimmed)) inDiscussion = true;
  else if (/^\d+\.\s+/.test(trimmed) && !trimmed.includes("DISCUSSION")) inDiscussion = false;\<close>
\<close>

definition trackDiscussion :: "bool \<Rightarrow> string \<Rightarrow> bool" where
  "trackDiscussion inDisc trimmed =
     (if isDiscussionHeader trimmed then True
      else if isNumbered trimmed \<and> \<not> includesStr trimmed ''DISCUSSION'' then False
      else inDisc)"

text \<open>
  One iteration of the body loop of \<^verbatim>\<open>generateMinutesPDF\<close>, without the page geometry
  (which reads neither flag and is modelled in the section on page geometry): the state
  after the line, and the line with the font that is asked for.  A full-width line is
  handed to \<^verbatim>\<open>writeText\<close> without the \<^verbatim>\<open>bold\<close> option, an indented line with the
  result of \<^verbatim>\<open>isBoldLine\<close> as that option.
\<close>

definition pdf_step :: "segstate \<Rightarrow> string \<Rightarrow> segstate \<times> rline" where
  "pdf_step st line =
     (let trimmed = trim line in
      if trimmed = [] then
        (st, \<lparr>role = Blank, bold = False, indentLevel = 0, numText = [], content = []\<rparr>)
      else
        (let disc = trackDiscussion (inDiscussion st) trimmed in
         case numPrefix trimmed of
           Some (num, rest) \<Rightarrow>
             (\<lparr>insideSection = True, inDiscussion = disc\<rparr>,
              \<lparr>role = SectionHeader, bold = True, indentLevel = 0, numText = num, content = rest\<rparr>)
         | None \<Rightarrow>
             if insideSection st \<and> \<not> pdf_isFullWidthLine trimmed then
               (\<lparr>insideSection = insideSection st, inDiscussion = disc\<rparr>,
                \<lparr>role = SectionBody, bold = pdf_isBoldLine trimmed disc, indentLevel = 1,
                 numText = [], content = trimmed\<rparr>)
             else
               (let ins1 = (if startsWith trimmed ''On a motion'' then False else insideSection st);
                    ins2 = (if startsWith trimmed ''Hearing no further'' then False else ins1)
                in (\<lparr>insideSection = ins2, inDiscussion = disc\<rparr>,
                    \<lparr>role = FullWidth, bold = False, indentLevel = 0, numText = [],
                     content = trimmed\<rparr>))))"

text \<open>
  One iteration of the body loop of \<^verbatim>\<open>MinutesDocument\<close>.  The bold flag of an indented
  line is computed in place; a full-width paragraph has no font weight, hence is not bold.
\<close>

definition scr_step :: "segstate \<Rightarrow> string \<Rightarrow> segstate \<times> rline" where
  "scr_step st line =
     (let trimmed = trim line in
      if trimmed = [] then
        (st, \<lparr>role = Blank, bold = False, indentLevel = 0, numText = [], content = []\<rparr>)
      else
        (let disc = trackDiscussion (inDiscussion st) trimmed in
         case numPrefix trimmed of
           Some (num, rest) \<Rightarrow>
             (\<lparr>insideSection = True, inDiscussion = disc\<rparr>,
              \<lparr>role = SectionHeader, bold = True, indentLevel = 0, numText = num, content = rest\<rparr>)
         | None \<Rightarrow>
             if insideSection st \<and> \<not> scr_isFullWidthLine trimmed then
               (let b = (scr_isAllCaps trimmed \<or>
                         (disc \<and> (startsWith trimmed ''Councilmember'' \<or>
                                  startsWith trimmed ''Council President'' \<or>
                                  startsWith trimmed ''Council Vice President'' \<or>
                                  isItemA trimmed)))
                in (\<lparr>insideSection = insideSection st, inDiscussion = disc\<rparr>,
                    \<lparr>role = SectionBody, bold = b, indentLevel = 1, numText = [],
                     content = trimmed\<rparr>))
             else
               (let ins = (if startsWith trimmed ''On a motion'' \<or>
                              startsWith trimmed ''Hearing no further''
                           then False else insideSection st)
                in (\<lparr>insideSection = ins, inDiscussion = disc\<rparr>,
                    \<lparr>role = FullWidth, bold = False, indentLevel = 0, numText = [],
                     content = trimmed\<rparr>))))"

text \<open>
  The loops over \<^verbatim>\<open>bodyLines\<close>: for each line, the state after it and what was emitted.
\<close>

fun pdf_body :: "segstate \<Rightarrow> string list \<Rightarrow> (segstate \<times> rline) list" where
  "pdf_body st [] = []"
| "pdf_body st (l # ls) = (let r = pdf_step st l in r # pdf_body (fst r) ls)"

fun scr_body :: "segstate \<Rightarrow> string list \<Rightarrow> (segstate \<times> rline) list" where
  "scr_body st [] = []"
| "scr_body st (l # ls) = (let r = scr_step st l in r # scr_body (fst r) ls)"

text \<open>
  A title line is written trimmed and centred by both renderers; the screen renderer gives
  it the font weight 700, the paginated renderer hands it to \<^verbatim>\<open>writeText\<close> with the
  \<^verbatim>\<open>bold\<close> option.
\<close>

definition titleRow :: "string \<Rightarrow> rline" where
  "titleRow l = \<lparr>role = Title, bold = True, indentLevel = 0, numText = [], content = trim l\<rparr>"

text \<open>
  The lines of a whole text as the paginated renderer classifies them, the title block and
  then the body, each with the font asked for.  What is drawn is \<open>pdf_drawn\<close> below.
\<close>

definition pdf_rows :: "string \<Rightarrow> rline list" where
  "pdf_rows minutes =
     (let lines = pdf_lines minutes in
      map titleRow (pdf_titleLines lines) @ map snd (pdf_body initState (bodyLines lines)))"

text \<open>
  The traversal of the screen renderer: the title block, then the body, each element with
  the font weight it is shown in.
\<close>

definition scr_traversal :: "string \<Rightarrow> rline list" where
  "scr_traversal text =
     (let lines = scr_lines text in
      map titleRow (scr_titleLines lines) @ map snd (scr_body initState (bodyLines lines)))"

definition triple :: "rline \<Rightarrow> role \<times> bool \<times> nat" where
  "triple e = (role e, bold e, indentLevel e)"

section \<open>Review markers\<close>

text \<open>
  The timestamp pattern \<^verbatim>\<open>@(\d{1,2}):(\d{2})(?::(\d{2}))?\<close>, matched at the start of a
  string.  A match gives the three groups (the third absent when the optional part did not
  take part) and what follows the match.  The optional seconds part is greedy: it is taken
  whenever a colon and two digits follow.
\<close>

fun tsSeconds :: "string \<Rightarrow> string option \<times> string" where
  "tsSeconds (c # s1 # s2 # r) =
     (if c = CHR '':'' \<and> isDigit s1 \<and> isDigit s2 then (Some [s1, s2], r)
      else (None, c # s1 # s2 # r))"
| "tsSeconds r = (None, r)"

text \<open>After the first group \<open>g1\<close>: a colon, two digits, the optional seconds.\<close>

fun tsTail :: "string \<Rightarrow> string \<Rightarrow> (string \<times> string \<times> string option \<times> string) option" where
  "tsTail g1 (c # m1 # m2 # r) =
     (if c = CHR '':'' \<and> isDigit m1 \<and> isDigit m2
      then Some (g1, [m1, m2], fst (tsSeconds r), snd (tsSeconds r))
      else None)"
| "tsTail g1 r = None"

text \<open>
  \<^verbatim>\<open>\d{1,2}\<close> is greedy: two digits are tried first, one digit when that attempt fails.
\<close>

fun tsTwo :: "string \<Rightarrow> (string \<times> string \<times> string option \<times> string) option" where
  "tsTwo (d1 # d2 # r) = (if isDigit d1 \<and> isDigit d2 then tsTail [d1, d2] r else None)"
| "tsTwo r = None"

fun tsOne :: "string \<Rightarrow> (string \<times> string \<times> string option \<times> string) option" where
  "tsOne (d1 # r) = (if isDigit d1 then tsTail [d1] r else None)"
| "tsOne [] = None"

fun tsAt :: "string \<Rightarrow> (string \<times> string \<times> string option \<times> string) option" where
  "tsAt (a # r) =
     (if a = CHR ''@'' then (case tsTwo r of Some m \<Rightarrow> Some m | None \<Rightarrow> tsOne r) else None)"
| "tsAt [] = None"

text \<open>\<^verbatim>\<open>marker.match(...)\<close> without the global flag: the leftmost position with a match.\<close>

fun tsSearch :: "string \<Rightarrow> (string \<times> string \<times> string option \<times> string) option" where
  "tsSearch [] = None"
| "tsSearch (c # cs) = (case tsAt (c # cs) of Some m \<Rightarrow> Some m | None \<Rightarrow> tsSearch cs)"

text \<open>\<^verbatim>\<open>parseInt\<close> on a string of decimal digits, and \<^verbatim>\<open>String(n)\<close> on a natural number.\<close>

definition digitVal :: "char \<Rightarrow> nat" where
  "digitVal c = length (takeWhile (\<lambda>d. d \<noteq> c) ''0123456789'')"

definition parseInt :: "string \<Rightarrow> nat" where
  "parseInt ds = foldl (\<lambda>n c. 10 * n + digitVal c) 0 ds"

fun showNat :: "nat \<Rightarrow> string" where
  "showNat n =
     (if n < 10 then [''0123456789'' ! n]
      else showNat (n div 10) @ [''0123456789'' ! (n mod 10)])"

declare showNat.simps [simp del]

record timestamp =
  display :: string
  seconds :: nat

text \<open>\<^verbatim>\<open>parseReviewTimestamp\<close>: \<open>None\<close> is the source's \<^verbatim>\<open>null\<close>.\<close>

definition parseReviewTimestamp :: "string \<Rightarrow> timestamp option" where
  "parseReviewTimestamp marker =
     (case tsSearch marker of
        None \<Rightarrow> None
      | Some (g1, g2, g3, r) \<Rightarrow>
          (case g3 of
             Some g3' \<Rightarrow>
               (let h = parseInt g1; m = parseInt g2; s = parseInt g3'
                in Some \<lparr>display = showNat h @ '':'' @ g2 @ '':'' @ g3',
                         seconds = h * 3600 + m * 60 + s\<rparr>)
           | None \<Rightarrow>
               (let m = parseInt g1; s = parseInt g2
                in Some \<lparr>display = g1 @ '':'' @ g2, seconds = m * 60 + s\<rparr>)))"

text \<open>
  \<^verbatim>\<open>/\s*@\d{1,2}:\d{2}(?::\d{2})?\s*/\<close> at the start of a string: the white space before
  the \<^verbatim>\<open>@\<close> is a whole run (a shorter run is followed by white space, not by \<^verbatim>\<open>@\<close>), and
  the trailing run is taken whole.  The result is what follows the match.
\<close>

definition tsStripAt :: "string \<Rightarrow> string option" where
  "tsStripAt s =
     (case tsAt (dropWhile isSpace s) of
        None \<Rightarrow> None
      | Some (g1, g2, g3, r) \<Rightarrow> Some (dropWhile isSpace r))"

text \<open>\<^verbatim>\<open>.replace(/\s*@\d{1,2}:\d{2}(?::\d{2})?\s*/, " ")\<close>: the leftmost match only.\<close>

fun replaceTs :: "string \<Rightarrow> string" where
  "replaceTs [] = []"
| "replaceTs (c # cs) =
     (case tsStripAt (c # cs) of Some r \<Rightarrow> '' '' @ r | None \<Rightarrow> c # replaceTs cs)"

text \<open>\<^verbatim>\<open>/\s+\]/\<close> at the start of a string, and \<^verbatim>\<open>.replace(/\s+\]/, "]")\<close>.\<close>

definition brAt :: "string \<Rightarrow> string option" where
  "brAt s =
     (if takeWhile isSpace s = [] then None
      else (case dropWhile isSpace s of
              [] \<Rightarrow> None
            | c # r \<Rightarrow> if c = CHR '']'' then Some r else None))"

fun replaceBr :: "string \<Rightarrow> string" where
  "replaceBr [] = []"
| "replaceBr (c # cs) =
     (case brAt (c # cs) of Some r \<Rightarrow> '']'' @ r | None \<Rightarrow> c # replaceBr cs)"

definition stripTimestamp :: "string \<Rightarrow> string" where
  "stripTimestamp marker = replaceBr (replaceTs marker)"

text \<open>
  \<^verbatim>\<open>\[REVIEW:[^\]]*\]\<close> at the start of a string: the marker ends at the first closing
  bracket.  The result is the marker and what follows it.
\<close>

definition markerAt :: "string \<Rightarrow> (string \<times> string) option" where
  "markerAt s =
     (if startsWith s ''[REVIEW:'' then
        (let r = drop 8 s in
         case dropWhile (\<lambda>c. c \<noteq> CHR '']'') r of
           [] \<Rightarrow> None
         | c # rest \<Rightarrow> Some (''[REVIEW:'' @ takeWhile (\<lambda>c. c \<noteq> CHR '']'') r @ [c], rest))
      else None)"

text \<open>
  \<^verbatim>\<open>text.split(/(\[REVIEW:[^\]]*\])/g)\<close>: the pieces between the markers, with each
  marker (the capture group) between them.  \<open>cur\<close> is the piece collected so far.
\<close>

function reviewSplit :: "string \<Rightarrow> string \<Rightarrow> string list" where
  "reviewSplit cur [] = [cur]"
| "reviewSplit cur (c # cs) =
     (case markerAt (c # cs) of
        Some (m, rest) \<Rightarrow> cur # m # reviewSplit [] rest
      | None \<Rightarrow> reviewSplit (cur @ [c]) cs)"
  by pat_completeness auto
termination
proof (relation "measure (\<lambda>(cur, s). length s)")
  show "wf (measure (\<lambda>(cur, s). length s))" by simp
next
  fix cur :: string and c cs x m rest
  assume a: "markerAt (c # cs) = Some x" "(m, rest) = x"
  have "length (dropWhile (\<lambda>c. c \<noteq> CHR '']'') (drop 8 (c # cs))) \<le> length (c # cs)"
    by (rule order_trans [OF length_dropWhile_le]) simp
  with a have "length rest < length (c # cs)"
    by (auto simp: markerAt_def Let_def split: if_splits list.splits)
  then show "(([], rest), (cur, c # cs)) \<in> measure (\<lambda>(cur, s). length s)" by simp
next
  fix cur :: string and c cs
  show "((cur @ [c], cs), (cur, c # cs)) \<in> measure (\<lambda>(cur, s). length s)" by simp
qed

text \<open>\<^verbatim>\<open>/^\[REVIEW:[^\]]*\]$/.test(part)\<close>\<close>

definition isMarker :: "string \<Rightarrow> bool" where
  "isMarker part = (case markerAt part of None \<Rightarrow> False | Some (m, rest) \<Rightarrow> rest = [])"

text \<open>
  What \<^verbatim>\<open>ReviewText\<close> renders: plain spans, and for each marker its display text, its
  parsed timestamp and, with a video URL, the address the click opens.
\<close>

datatype part = Span string | Review string "timestamp option" "string option"

definition ReviewText :: "string \<Rightarrow> string option \<Rightarrow> part list" where
  "ReviewText t videoUrl =
     map (\<lambda>p.
        if \<not> isMarker p then Span p
        else (let ts = parseReviewTimestamp p;
                  displayText = stripTimestamp p
              in Review displayText ts
                   (case videoUrl of
                      None \<Rightarrow> None
                    | Some u \<Rightarrow>
                        if u = [] then None
                        else (case ts of
                                Some v \<Rightarrow> Some (u @ ''?seekto='' @ showNat (seconds v))
                              | None \<Rightarrow> Some u))))
       (reviewSplit [] t)"

section \<open>The signature block\<close>

text \<open>
  \<^verbatim>\<open>t.split(/\s{4,}/)\<close>: at each position the pattern takes the whole run of white space
  when the run has four characters or more.  \<open>cur\<close> is the piece collected so far.
\<close>

function splitWs4 :: "string \<Rightarrow> string \<Rightarrow> string list" where
  "splitWs4 cur [] = [cur]"
| "splitWs4 cur (c # cs) =
     (if length (takeWhile isSpace (c # cs)) \<ge> 4
      then cur # splitWs4 [] (dropWhile isSpace (c # cs))
      else splitWs4 (cur @ [c]) cs)"
  by pat_completeness auto
termination
proof (relation "measure (\<lambda>(cur, s). length s)")
  show "wf (measure (\<lambda>(cur, s). length s))" by simp
next
  fix cur :: string and c cs
  assume "4 \<le> length (takeWhile isSpace (c # cs))"
  then have "isSpace c" by (auto split: if_splits)
  then have "length (dropWhile isSpace (c # cs)) \<le> length cs"
    by (simp add: length_dropWhile_le)
  then show "(([], dropWhile isSpace (c # cs)), (cur, c # cs)) \<in> measure (\<lambda>(cur, s). length s)"
    by simp
next
  fix cur :: string and c cs
  show "((cur @ [c], cs), (cur, c # cs)) \<in> measure (\<lambda>(cur, s). length s)" by simp
qed

text \<open>
  One iteration of the loop over \<^verbatim>\<open>sigLines\<close> in \<^verbatim>\<open>generateMinutesPDF\<close>, on the pair
  (\<^verbatim>\<open>nameLinesParsed\<close>, \<^verbatim>\<open>titleLinesParsed\<close>).
\<close>

definition pdf_sigStep :: "string list \<times> string list \<Rightarrow> string \<Rightarrow> string list \<times> string list" where
  "pdf_sigStep acc line =
     (let t = trim line; names = fst acc; titles = snd acc in
      if includesStr t ''___'' \<or> t = [] then acc
      else if length names < 2 then
        (let parts = splitWs4 [] t in
         if length parts \<ge> 2 then (names @ [trim (parts ! 0), trim (parts ! 1)], titles)
         else (names @ [t], titles))
      else
        (let parts = splitWs4 [] t in
         if length parts \<ge> 2 then (names, titles @ [trim (parts ! 0), trim (parts ! 1)])
         else (names, titles @ [t])))"

text \<open>The same loop in \<^verbatim>\<open>MinutesDocument\<close>, on (\<^verbatim>\<open>sigNames\<close>, \<^verbatim>\<open>sigTitles\<close>).\<close>

definition scr_sigStep :: "string list \<times> string list \<Rightarrow> string \<Rightarrow> string list \<times> string list" where
  "scr_sigStep acc line =
     (let t = trim line; names = fst acc; titles = snd acc in
      if includesStr t ''___'' \<or> t = [] then acc
      else (let parts = splitWs4 [] t in
            if length names < 2 then
              (if length parts \<ge> 2 then (names @ [trim (parts ! 0), trim (parts ! 1)], titles)
               else (names @ [t], titles))
            else
              (if length parts \<ge> 2 then (names, titles @ [trim (parts ! 0), trim (parts ! 1)])
               else (names, titles @ [t]))))"

definition pdf_sigParse :: "string list \<Rightarrow> string list \<times> string list" where
  "pdf_sigParse ls = foldl pdf_sigStep ([], []) ls"

definition scr_sigParse :: "string list \<Rightarrow> string list \<times> string list" where
  "scr_sigParse ls = foldl scr_sigStep ([], []) ls"

text \<open>
  \<^verbatim>\<open>xs[i] || d\<close>: an index beyond the array gives \<^verbatim>\<open>undefined\<close>, which like the empty
  string is falsy, and the default is taken.
\<close>

definition orDefault :: "string list \<Rightarrow> nat \<Rightarrow> string \<Rightarrow> string" where
  "orDefault xs i d = (if i < length xs \<and> xs ! i \<noteq> [] then xs ! i else d)"

record sigblock =
  leftName :: string
  rightName :: string
  leftTitle :: string
  rightTitle :: string

text \<open>The four texts the paginated renderer writes under the two rules.\<close>

definition pdf_signature :: "string list \<Rightarrow> sigblock" where
  "pdf_signature lines =
     (let p = pdf_sigParse (sigLines lines) in
      \<lparr>leftName = orDefault (fst p) 0 ''Sam Joshi'',
       rightName = orDefault (fst p) 1 ''Patricia Benedetto, RMC'',
       leftTitle = orDefault (snd p) 0 ''Council President'',
       rightTitle = orDefault (snd p) 1 ''Municipal Clerk''\<rparr>)"

text \<open>
  The screen renderer shows the block only when a name was parsed
  (\<^verbatim>\<open>sigNames.length > 0 &&\<close>); \<open>None\<close> is the block left out.
\<close>

definition scr_signature :: "string list \<Rightarrow> sigblock option" where
  "scr_signature lines =
     (let p = scr_sigParse (sigLines lines) in
      if length (fst p) > 0 then
        Some \<lparr>leftName = orDefault (fst p) 0 [],
              rightName = orDefault (fst p) 1 [],
              leftTitle = orDefault (snd p) 0 [],
              rightTitle = orDefault (snd p) 1 []\<rparr>
      else None)"

section \<open>Inline content of the screen renderer\<close>

text \<open>\<^verbatim>\<open>/^https?:\/\//.test(trimmed)\<close>\<close>

definition isHttpUrl :: "string \<Rightarrow> bool" where
  "isHttpUrl t = (startsWith t ''http://'' \<or> startsWith t ''https://'')"

text \<open>
  What the screen renderer puts inside an element: nothing for a blank line, the
  \<^verbatim>\<open>ReviewText\<close> of the header text for a section header, and for a section-body or
  full-width line either one anchor (a line that is a URL) or its \<^verbatim>\<open>ReviewText\<close>.
\<close>

datatype inline = NoText | Anchor string | Parts "part list"

definition scr_inline :: "string option \<Rightarrow> rline \<Rightarrow> inline" where
  "scr_inline videoUrl e =
     (case role e of
        Blank \<Rightarrow> NoText
      | Title \<Rightarrow> NoText
      | SectionHeader \<Rightarrow> Parts (ReviewText (content e) videoUrl)
      | SectionBody \<Rightarrow>
          if isHttpUrl (content e) then Anchor (content e)
          else Parts (ReviewText (content e) videoUrl)
      | FullWidth \<Rightarrow>
          if isHttpUrl (content e) then Anchor (content e)
          else Parts (ReviewText (content e) videoUrl))"

section \<open>The text of the concrete scenario\<close>

definition scenarioLines :: "string list" where
  "scenarioLines =
     [''TOWNSHIP OF EDISON'',
      ''MINUTES'',
      ''A Regular Meeting of the Council was held...'',
      ''1. CALL TO ORDER'',
      ''The meeting was called to order at 7:00 PM.'',
      ''4. DISCUSSION ITEMS'',
      ''Councilmember Smith raised [REVIEW: budget concern @12:05]'',
      ''On a motion, the meeting was adjourned.'',
      ''_________________        _________________'',
      ''Jane Doe                 John Roe'',
      ''Council President         Township Clerk'']"

text \<open>The lines joined by line feeds: \<^verbatim>\<open>lines.join("\n")\<close>.\<close>

fun joinNL :: "string list \<Rightarrow> string" where
  "joinNL [] = []"
| "joinNL [l] = l"
| "joinNL (l # ls) = l @ CHR 0x0A # joinNL ls"

definition scenarioText :: string where
  "scenarioText = joinNL scenarioLines"

section \<open>Page geometry of the paginated renderer\<close>

text \<open>
  The constants of \<^verbatim>\<open>PAGE\<close> and of the text metrics, in points.  The vertical position
  is a JavaScript number, modelled as a real.
\<close>

definition marginTop :: real where
  "marginTop = 72"

definition contentWidth :: real where
  "contentWidth = 612 - 72 - 72"

definition bottomLimit :: real where
  "bottomLimit = 792 - 72 - 14"

definition LINE_HEIGHT :: real where
  "LINE_HEIGHT = 10 + 1"

definition SECTION_INDENT :: real where
  "SECTION_INDENT = 36"

definition marginLeft :: real where
  "marginLeft = 72"

text \<open>
  The variables \<^verbatim>\<open>y\<close> and \<^verbatim>\<open>pageNum\<close> of \<^verbatim>\<open>generateMinutesPDF\<close>, and the font that
  is current in the document (\<open>curBold\<close> for Times-Bold, otherwise Times-Roman).
\<close>

record cursor =
  curY :: real
  pageNum :: nat
  curBold :: bool

text \<open>
  A block of wrapped text as \<^verbatim>\<open>doc.text\<close> draws it: the page that is current, the
  position of its top, its height, its left edge and width, the font that is current when
  it is drawn, whether it is centred, and the text.
\<close>

record box =
  boxPage :: nat
  boxTop :: real
  boxHeight :: real
  boxX :: real
  boxWidth :: real
  boxBold :: bool
  boxCentered :: bool
  boxText :: string

text \<open>
  The PDF library is not part of the repository; its measure \<^verbatim>\<open>doc.heightOfString\<close> is a
  parameter: the height of a text set in the bold or the regular font and wrapped to a
  width.  After \<^verbatim>\<open>doc.text\<close> at \<^verbatim>\<open>y\<close> the library leaves \<^verbatim>\<open>doc.y\<close> below the text, at
  \<^verbatim>\<open>y\<close> plus the height of the text in the font it was drawn in.  This is the
  library's behaviour for a text that ends above the bottom margin of the page (at
  792 - 72 points); a text that runs over that margin is continued by the library on a
  page of its own, and the position the model gives after such a text is not the
  library's.
\<close>

type_synonym measure = "bool \<Rightarrow> string \<Rightarrow> real \<Rightarrow> real"

text \<open>
  \<^verbatim>\<open>startNewPage\<close>: \<^verbatim>\<open>writePageFooter\<close> and \<^verbatim>\<open>writePageHeader\<close> both select the regular
  font and restore only the position, so the regular font is current on the new page.
\<close>

definition startNewPage :: "cursor \<Rightarrow> cursor" where
  "startNewPage c = \<lparr>curY = marginTop, pageNum = pageNum c + 1, curBold = False\<rparr>"

definition ensureSpace :: "real \<Rightarrow> cursor \<Rightarrow> cursor" where
  "ensureSpace needed c = (if curY c + needed > bottomLimit then startNewPage c else c)"

definition blankLine :: "cursor \<Rightarrow> cursor" where
  "blankLine c = c\<lparr>curY := curY c + LINE_HEIGHT\<rparr>"

text \<open>
  \<^verbatim>\<open>writeText(text, x, width, opts)\<close>: select the font asked for, measure the text in
  it, ensure the space, draw the text.  The font is selected before \<^verbatim>\<open>ensureSpace\<close>, so
  a page break in between leaves the regular font current when the text is drawn.
\<close>

definition writeText ::
    "measure \<Rightarrow> string \<Rightarrow> real \<Rightarrow> real \<Rightarrow> bool \<Rightarrow> bool \<Rightarrow> cursor \<Rightarrow> cursor \<times> box" where
  "writeText hos t x width centered b c =
     (let c0 = c\<lparr>curBold := b\<rparr>;
          textHeight = hos b t width;
          c1 = ensureSpace textHeight c0;
          drawnHeight = hos (curBold c1) t width
      in (c1\<lparr>curY := curY c1 + drawnHeight\<rparr>,
          \<lparr>boxPage = pageNum c1, boxTop = curY c1, boxHeight = drawnHeight, boxX = x,
           boxWidth = width, boxBold = curBold c1, boxCentered = centered, boxText = t\<rparr>))"

text \<open>
  What the body loop of \<^verbatim>\<open>generateMinutesPDF\<close> does with the page for one classified
  line, and what the loop over the title lines does for a title line.  For a section
  header it reserves two line heights, whatever the header text, then selects the bold
  font and sets the header text wrapped to the width right of the indent; the number
  prefix is set on the same base line without a line break and moves nothing.  (The
  header text of a trimmed line is never empty; in the branch for an empty one the
  position stays.)
\<close>

definition pdf_place :: "measure \<Rightarrow> cursor \<Rightarrow> rline \<Rightarrow> cursor \<times> box list" where
  "pdf_place hos c e =
     (case role e of
        Blank \<Rightarrow> (blankLine c, [])
      | SectionHeader \<Rightarrow>
          (let c1 = (ensureSpace (LINE_HEIGHT * 2) c)\<lparr>curBold := True\<rparr> in
           if length (content e) > 0 then
             (let h = hos True (content e) (contentWidth - SECTION_INDENT)
              in (c1\<lparr>curY := curY c1 + h\<rparr>,
                  [\<lparr>boxPage = pageNum c1, boxTop = curY c1, boxHeight = h,
                    boxX = marginLeft + SECTION_INDENT,
                    boxWidth = contentWidth - SECTION_INDENT,
                    boxBold = True, boxCentered = False, boxText = content e\<rparr>]))
           else (c1, []))
      | SectionBody \<Rightarrow>
          (let r = writeText hos (content e) (marginLeft + SECTION_INDENT)
                     (contentWidth - SECTION_INDENT) False (bold e) c
           in (fst r, [snd r]))
      | FullWidth \<Rightarrow>
          (let r = writeText hos (content e) marginLeft contentWidth False False c
           in (fst r, [snd r]))
      | Title \<Rightarrow>
          (let r = writeText hos (content e) marginLeft contentWidth True True c
           in (fst r, [snd r])))"

text \<open>The lines placed in turn: each line with the blocks drawn for it.\<close>

fun pdf_placeAll ::
    "measure \<Rightarrow> cursor \<Rightarrow> rline list \<Rightarrow> cursor \<times> (rline \<times> box list) list" where
  "pdf_placeAll hos c [] = (c, [])"
| "pdf_placeAll hos c (e # es) =
     (let r = pdf_place hos c e; r' = pdf_placeAll hos (fst r) es
      in (fst r', (e, snd r) # snd r'))"

text \<open>
  The pages of a whole text, up to the rules of the signature block: the header of the
  first page (which selects the regular font), two blank lines, the title block, two
  blank lines, the body, then \<^verbatim>\<open>ensureSpace(60)\<close> and two blank lines.
\<close>

definition pdf_pages :: "measure \<Rightarrow> string \<Rightarrow> cursor \<times> (rline \<times> box list) list" where
  "pdf_pages hos minutes =
     (let lines = pdf_lines minutes;
          c1 = blankLine (blankLine \<lparr>curY = marginTop, pageNum = 1, curBold = False\<rparr>);
          t = pdf_placeAll hos c1 (map titleRow (pdf_titleLines lines));
          c3 = blankLine (blankLine (fst t));
          b = pdf_placeAll hos c3 (map snd (pdf_body initState (bodyLines lines)));
          c5 = blankLine (blankLine (ensureSpace 60 (fst b)))
      in (c5, snd t @ snd b))"

text \<open>The position after the body, and the text blocks in the order they are drawn.\<close>

definition pdf_layout :: "measure \<Rightarrow> string \<Rightarrow> cursor \<times> box list" where
  "pdf_layout hos minutes =
     (fst (pdf_pages hos minutes), concat (map snd (snd (pdf_pages hos minutes))))"

text \<open>
  The (role, bold, indent level) of a line as the paginated renderer draws it: bold is
  the font of the block drawn for the line.  A blank line draws nothing; the number
  prefix and the text of a section header are drawn right after the bold font is selected.
\<close>

definition drawn :: "rline \<times> box list \<Rightarrow> role \<times> bool \<times> nat" where
  "drawn p =
     (role (fst p),
      (if role (fst p) = SectionHeader then True else list_ex boxBold (snd p)),
      indentLevel (fst p))"

definition pdf_drawn :: "measure \<Rightarrow> string \<Rightarrow> (role \<times> bool \<times> nat) list" where
  "pdf_drawn hos minutes = map drawn (snd (pdf_pages hos minutes))"

text \<open>A header whose text needs more than two lines, after fifty-one blank lines.\<close>

definition longHeaderTitle :: string where
  "longHeaderTitle = ''RESOLUTION AUTHORIZING THE MAYOR AND TOWNSHIP CLERK TO EXECUTE A SHARED SERVICES AGREEMENT WITH THE COUNTY OF MIDDLESEX FOR SNOW REMOVAL AND ROAD MAINTENANCE ON COUNTY ROADS WITHIN THE TOWNSHIP FOR THE CALENDAR YEAR''"

definition longHeaderLine :: string where
  "longHeaderLine = ''1. '' @ longHeaderTitle"

definition longHeaderText :: string where
  "longHeaderText = replicate 51 (CHR 0x0A) @ longHeaderLine"

text \<open>
  A short section after fifty-one blank lines: a header and two indented lines in capitals.
\<close>

definition boldBreakLines :: "string list" where
  "boldBreakLines = replicate 51 [] @ [''1. X'', ''AB'', ''CD'']"

definition boldBreakText :: string where
  "boldBreakText = replicate 51 (CHR 0x0A) @ ''1. X'' @ [CHR 0x0A] @ ''AB'' @ [CHR 0x0A] @ ''CD''"

section \<open>Auxiliary notions\<close>

text \<open>
  Needles that the expansion of tabs can neither create nor destroy at a given position:
  no tab, no two adjacent spaces, no space at the end.
\<close>

fun tabFree :: "string \<Rightarrow> bool" where
  "tabFree [] = True"
| "tabFree [a] = (a \<noteq> CHR 0x09 \<and> a \<noteq> CHR 0x20)"
| "tabFree (a # b # r) = (a \<noteq> CHR 0x09 \<and> \<not> (a = CHR 0x20 \<and> b = CHR 0x20) \<and> tabFree (b # r))"

text \<open>
  No match of the timestamp pattern starts inside \<open>pre\<close> when \<open>pre\<close> is followed by \<open>s\<close>.
\<close>

fun noTsBefore :: "string \<Rightarrow> string \<Rightarrow> bool" where
  "noTsBefore [] s = True"
| "noTsBefore (c # cs) s = (tsAt (c # cs @ s) = None \<and> noTsBefore cs s)"

section \<open>Properties\<close>

lemma no_letters_filter: "list_all (\<lambda>c. \<not> isLetter c) s \<Longrightarrow> filter isLetter s = []"
  by (induction s) auto

text \<open>
  C9.  A line with no ASCII letter (digits, punctuation or white space only) is never
  all-caps, in either renderer: the test for an empty letter set returns false before the
  ratio is formed, so no quotient by zero is evaluated, and outside the Discussion section
  the bold test of the paginated renderer is false for such a line.
\<close>

theorem C9_isAllCaps_no_letters:
  "list_all (\<lambda>c. \<not> isLetter c) s \<Longrightarrow>
     \<not> pdf_isAllCaps s \<and> \<not> scr_isAllCaps s \<and> \<not> pdf_isBoldLine s False"
  by (simp add: pdf_isAllCaps_def scr_isAllCaps_def pdf_isBoldLine_def no_letters_filter)

theorem C9_isAllCaps_no_letters_witness:
  "list_all (\<lambda>c. \<not> isLetter c) ''12. -- 3/4 ''
   \<and> \<not> pdf_isAllCaps ''12. -- 3/4 '' \<and> \<not> scr_isAllCaps ''12. -- 3/4 ''"
proof -
  have h: "list_all (\<lambda>c. \<not> isLetter c) ''12. -- 3/4 ''"
    by (simp add: isLetter_def isLower_def isUpper_def)
  show ?thesis using h C9_isAllCaps_no_letters [OF h] by simp
qed

subsection \<open>Tab expansion commutes with the string primitives\<close>

lemma replaceTabs_Nil: "replaceTabs [] = []"
  by (simp add: replaceTabs_def)

lemma replaceTabs_Cons:
  "replaceTabs (c # cs) = (if c = CHR 0x09 then ''    '' else [c]) @ replaceTabs cs"
  by (simp add: replaceTabs_def)

lemma replaceTabs_append: "replaceTabs (a @ b) = replaceTabs a @ replaceTabs b"
  by (simp add: replaceTabs_def)

lemma replaceTabs_eq_Nil: "(replaceTabs s = []) = (s = [])"
  by (cases s) (auto simp: replaceTabs_Cons replaceTabs_Nil)

lemma splitNL_ne: "splitNL s \<noteq> []"
  by (induction s) (auto simp: Let_def)

lemma splitNL_replaceTabs: "splitNL (replaceTabs s) = map replaceTabs (splitNL s)"
proof (induction s)
  case Nil show ?case by (simp add: replaceTabs_Nil)
next
  case (Cons c cs)
  obtain l ls where r: "splitNL cs = l # ls" using splitNL_ne [of cs] by (cases "splitNL cs") auto
  show ?case using Cons r
    by (auto simp: replaceTabs_Cons replaceTabs_Nil Let_def)
qed

lemma dropWhile_space_replaceTabs:
  "dropWhile isSpace (replaceTabs s) = replaceTabs (dropWhile isSpace s)"
  by (induction s) (auto simp: replaceTabs_Cons replaceTabs_Nil isSpace_def)

lemma takeWhile_space_replaceTabs:
  "takeWhile isSpace (replaceTabs s) = replaceTabs (takeWhile isSpace s)"
  by (induction s) (auto simp: replaceTabs_Cons replaceTabs_Nil isSpace_def)

lemma rev_replaceTabs: "rev (replaceTabs s) = replaceTabs (rev s)"
  by (induction s) (auto simp: replaceTabs_Cons replaceTabs_Nil replaceTabs_append)

lemma trim_replaceTabs: "trim (replaceTabs s) = replaceTabs (trim s)"
  by (simp add: trim_def dropWhile_space_replaceTabs rev_replaceTabs)

lemma takeWhile_digit_replaceTabs:
  "takeWhile isDigit (replaceTabs s) = takeWhile isDigit s"
  by (induction s) (auto simp: replaceTabs_Cons replaceTabs_Nil isDigit_def)

lemma dropWhile_digit_replaceTabs:
  "dropWhile isDigit (replaceTabs s) = replaceTabs (dropWhile isDigit s)"
  by (induction s) (auto simp: replaceTabs_Cons replaceTabs_Nil isDigit_def)

lemma filter_letter_replaceTabs: "filter isLetter (replaceTabs s) = filter isLetter s"
  by (induction s) (auto simp: replaceTabs_Cons replaceTabs_Nil isLetter_def isLower_def isUpper_def)

lemma isItemA_replaceTabs: "isItemA (replaceTabs s) = isItemA s"
proof (cases s)
  case Nil then show ?thesis by (simp add: replaceTabs_Nil)
next
  case (Cons a s1)
  show ?thesis
  proof (cases s1)
    case Nil with Cons show ?thesis by (simp add: replaceTabs_Nil replaceTabs_Cons)
  next
    case (Cons b s2)
    note c2 = this
    show ?thesis
    proof (cases s2)
      case Nil with c2 \<open>s = a # s1\<close> show ?thesis by (simp add: replaceTabs_Nil replaceTabs_Cons)
    next
      case (Cons c s3)
      with c2 \<open>s = a # s1\<close> show ?thesis by (simp add: replaceTabs_Nil replaceTabs_Cons isSpace_def)
    qed
  qed
qed

lemma startsWith_replaceTabs:
  "tabFree p \<Longrightarrow> startsWith (replaceTabs s) p = startsWith s p"
proof (induction p arbitrary: s rule: tabFree.induct)
  case 1 show ?case by simp
next
  case (2 a)
  then show ?case by (cases s) (auto simp: replaceTabs_Cons replaceTabs_Nil)
next
  case (3 a b r)
  then show ?case by (cases s) (auto simp: replaceTabs_Cons replaceTabs_Nil)
qed

lemma includes_replaceTabs:
  assumes "tabFree p" "p \<noteq> []" "hd p \<noteq> CHR 0x20"
  shows "includesStr (replaceTabs s) p = includesStr s p"
proof (induction s)
  case Nil show ?case by (simp add: replaceTabs_Nil)
next
  case (Cons c cs)
  obtain a r where p: "p = a # r" using assms(2) by (cases p) auto
  have a: "a \<noteq> CHR 0x20" "a \<noteq> CHR 0x09" using assms p by (cases r; auto)+
  show ?case
  proof (cases "c = CHR 0x09")
    case True
    then show ?thesis using Cons a p by (simp add: replaceTabs_Cons)
  next
    case False
    have "startsWith (replaceTabs (c # cs)) p = startsWith (c # cs) p"
      using assms(1) by (rule startsWith_replaceTabs)
    then show ?thesis using False Cons by (simp add: replaceTabs_Cons)
  qed
qed

lemma digits_replaceTabs: "list_all isDigit s \<Longrightarrow> replaceTabs s = s"
  by (induction s) (auto simp: replaceTabs_Cons replaceTabs_Nil isDigit_def)

lemma numPrefix_replaceTabs:
  "numPrefix (replaceTabs t) = map_option (\<lambda>(n, r). (replaceTabs n, replaceTabs r)) (numPrefix t)"
proof -
  have td: "replaceTabs (takeWhile isDigit t) = takeWhile isDigit t"
    by (rule digits_replaceTabs) (simp add: list_all_iff, meson set_takeWhileD)
  show ?thesis
  proof (cases "dropWhile isDigit t")
    case Nil
    then show ?thesis
      by (simp add: numPrefix_def Let_def takeWhile_digit_replaceTabs dropWhile_digit_replaceTabs
          replaceTabs_Nil del: dropWhile_eq_Nil_conv)
  next
    case (Cons c r')
    have ws: "takeWhile isSpace (replaceTabs r') = replaceTabs (takeWhile isSpace r')"
      "dropWhile isSpace (replaceTabs r') = replaceTabs (dropWhile isSpace r')"
      by (rule takeWhile_space_replaceTabs, rule dropWhile_space_replaceTabs)
    show ?thesis
    proof (cases "c = CHR ''.''")
      case True
      then show ?thesis using Cons
        by (simp add: numPrefix_def Let_def takeWhile_digit_replaceTabs dropWhile_digit_replaceTabs
            replaceTabs_Cons replaceTabs_append td replaceTabs_eq_Nil ws replaceTabs_Nil)
    next
      case False
      then show ?thesis using Cons
        by (simp add: numPrefix_def Let_def takeWhile_digit_replaceTabs dropWhile_digit_replaceTabs
            replaceTabs_Cons)
    qed
  qed
qed

subsection \<open>Agreement of the two classification passes\<close>

lemma isAllCaps_replaceTabs: "pdf_isAllCaps (replaceTabs t) = scr_isAllCaps t"
  by (simp add: pdf_isAllCaps_def scr_isAllCaps_def Let_def filter_letter_replaceTabs)

lemma isFullWidth_replaceTabs: "pdf_isFullWidthLine (replaceTabs t) = scr_isFullWidthLine t"
  by (simp add: pdf_isFullWidthLine_def scr_isFullWidthLine_def startsWith_replaceTabs)

lemma isNumbered_replaceTabs: "isNumbered (replaceTabs t) = isNumbered t"
  by (simp add: isNumbered_def numPrefix_replaceTabs)

lemma isDiscussionHeader_replaceTabs: "isDiscussionHeader (replaceTabs t) = isDiscussionHeader t"
  by (cases "numPrefix t") (auto simp: isDiscussionHeader_def numPrefix_replaceTabs startsWith_replaceTabs)

lemma trackDiscussion_replaceTabs: "trackDiscussion d (replaceTabs t) = trackDiscussion d t"
  by (simp add: trackDiscussion_def isNumbered_replaceTabs isDiscussionHeader_replaceTabs
      includes_replaceTabs)

lemma isBoldLine_replaceTabs:
  "pdf_isBoldLine (replaceTabs t) d =
    (scr_isAllCaps t \<or> (d \<and> (startsWith t ''Councilmember'' \<or> startsWith t ''Council President'' \<or>
        startsWith t ''Council Vice President'' \<or> isItemA t)))"
  by (simp add: pdf_isBoldLine_def isAllCaps_replaceTabs startsWith_replaceTabs isItemA_replaceTabs)

lemma step_replaceTabs:
  "fst (pdf_step st (replaceTabs l)) = fst (scr_step st l) \<and>
   triple (snd (pdf_step st (replaceTabs l))) = triple (snd (scr_step st l))"
proof (cases "numPrefix (trim l)")
  case None
  then show ?thesis
    by (simp add: pdf_step_def scr_step_def Let_def trim_replaceTabs replaceTabs_eq_Nil
      trackDiscussion_replaceTabs numPrefix_replaceTabs isFullWidth_replaceTabs
      isBoldLine_replaceTabs startsWith_replaceTabs triple_def)
next
  case (Some a)
  then show ?thesis
    by (cases a) (simp add: pdf_step_def scr_step_def Let_def trim_replaceTabs replaceTabs_eq_Nil
      trackDiscussion_replaceTabs numPrefix_replaceTabs triple_def)
qed

lemma body_replaceTabs:
  "map (triple \<circ> snd) (pdf_body st (map replaceTabs ls)) = map (triple \<circ> snd) (scr_body st ls)"
  by (induction ls arbitrary: st) (simp_all add: Let_def step_replaceTabs)

lemma isTitleBoundary_replaceTabs: "isTitleBoundary (replaceTabs l) = isTitleBoundary l"
  by (simp add: isTitleBoundary_def Let_def trim_replaceTabs startsWith_replaceTabs)

lemma titleScan_replaceTabs: "titleScan i (map replaceTabs ls) = titleScan i ls"
  by (induction ls arbitrary: i) (simp_all add: isTitleBoundary_replaceTabs)

lemma findTitleEnd_replaceTabs: "findTitleEnd (map replaceTabs ls) = findTitleEnd ls"
  by (simp add: findTitleEnd_def titleScan_replaceTabs)

lemma sigScan_replaceTabs: "n \<le> length ls \<Longrightarrow> sigScan n (map replaceTabs ls) = sigScan n ls"
  by (induction n) (simp_all add: includes_replaceTabs)

lemma findSigStart_replaceTabs: "findSigStart (map replaceTabs ls) = findSigStart ls"
  by (simp add: findSigStart_def sigScan_replaceTabs)

lemma bodyLines_replaceTabs: "bodyLines (map replaceTabs ls) = map replaceTabs (bodyLines ls)"
  by (simp add: bodyLines_def slice_def findSigStart_replaceTabs findTitleEnd_replaceTabs
      take_map drop_map)

lemma titleLines_replaceTabs:
  "map titleRow (pdf_titleLines (map replaceTabs ls)) = map (\<lambda>l. titleRow (replaceTabs l)) (scr_titleLines ls)"
  by (simp add: pdf_titleLines_def scr_titleLines_def slice_def findTitleEnd_replaceTabs
      take_map filter_map comp_def trim_replaceTabs replaceTabs_eq_Nil)

lemma triple_titleRow: "triple (titleRow l) = (Title, True, 0)"
  by (simp add: triple_def titleRow_def)

text \<open>
  The two classification passes agree.  For every text, the (role, bold flag, indent level)
  of each line in the screen renderer equals what the paginated renderer computes for it
  (with the font it asks for), although only the latter expands tabs and the two compute
  the bold flag and the full-width test by separate code; the two title scans and the two
  signature scans find the same indices.  The font the paginated renderer draws in is
  another matter, see the subsection on the font after a page break.
\<close>

lemma classification_agreement:
  "map triple (scr_traversal s) = map triple (pdf_rows s)
   \<and> findTitleEnd (scr_lines s) = findTitleEnd (pdf_lines s)
   \<and> findSigStart (scr_lines s) = findSigStart (pdf_lines s)"
proof -
  have l: "pdf_lines s = map replaceTabs (scr_lines s)"
    by (simp add: pdf_lines_def scr_lines_def splitNL_replaceTabs)
  have b: "map triple (map snd (pdf_body initState (bodyLines (pdf_lines s)))) =
           map triple (map snd (scr_body initState (bodyLines (scr_lines s))))"
    using body_replaceTabs [of initState "bodyLines (scr_lines s)"]
    by (simp add: l bodyLines_replaceTabs)
  have t: "map triple (map titleRow (pdf_titleLines (pdf_lines s))) =
           map triple (map titleRow (scr_titleLines (scr_lines s)))"
    by (simp add: l titleLines_replaceTabs comp_def triple_titleRow)
  show ?thesis
    using b t by (simp add: scr_traversal_def pdf_rows_def Let_def l
        findTitleEnd_replaceTabs findSigStart_replaceTabs del: map_map)
qed

subsection \<open>Tracking of the Discussion Items section\<close>

text \<open>
  What the header pattern matches, stated on the shape of the line: digits, a period, white
  space, and a remainder that does not start with white space.
\<close>

lemma numPrefix_structure:
  assumes "t = ds @ ''.'' @ ws @ rest" "ds \<noteq> []" "list_all isDigit ds"
    "ws \<noteq> []" "list_all isSpace ws" "rest \<noteq> []" "\<not> isSpace (hd rest)"
  shows "numPrefix t = Some (ds @ ''.'' @ ws, rest)"
proof -
  have nd: "\<not> isDigit CHR ''.''" by (simp add: isDigit_def)
  have d1: "takeWhile isDigit t = ds"
    using assms(1,3) nd by (simp add: list_all_iff takeWhile_append2 del: takeWhile_eq_all_conv)
  have d2: "dropWhile isDigit t = ''.'' @ ws @ rest"
    using assms(1,3) nd by (simp add: list_all_iff dropWhile_append2)
  obtain r0 rs where r: "rest = r0 # rs" using assms(6) by (cases rest) auto
  have w1: "takeWhile isSpace (ws @ rest) = ws"
    using assms(5,7) r by (simp add: list_all_iff)
  have w2: "dropWhile isSpace (ws @ rest) = rest"
    using assms(5,7) r by (simp add: list_all_iff)
  show ?thesis
    using assms(2,4) by (simp add: numPrefix_def d1 d2 w1 w2 Let_def)
qed

lemma pdf_step_disc:
  "trim line \<noteq> [] \<Longrightarrow> inDiscussion (fst (pdf_step st line)) = trackDiscussion (inDiscussion st) (trim line)"
  by (simp add: pdf_step_def Let_def split: option.splits prod.splits)

lemma scr_step_disc:
  "trim line \<noteq> [] \<Longrightarrow> inDiscussion (fst (scr_step st line)) = trackDiscussion (inDiscussion st) (trim line)"
  by (simp add: scr_step_def Let_def split: option.splits prod.splits)

lemma step_blank:
  "trim line = [] \<Longrightarrow> fst (pdf_step st line) = st \<and> fst (scr_step st line) = st"
  by (simp add: pdf_step_def scr_step_def)

text \<open>
  C4, as the code has it.  On a numbered header line (digits, a period, white space, then
  the header text) both loops set the flag exactly when the upper-case word DISCUSSION
  follows the number prefix immediately; a header that holds DISCUSSION elsewhere leaves
  the flag as it was; any other numbered header clears it.  The tests are case-sensitive.
  A line that is not a numbered header leaves the flag unchanged.
\<close>

theorem C4_discussion_tracking:
  "(trim line = ds @ ''.'' @ ws @ rest \<and> ds \<noteq> [] \<and> list_all isDigit ds \<and>
    ws \<noteq> [] \<and> list_all isSpace ws \<and> rest \<noteq> [] \<and> \<not> isSpace (hd rest) \<longrightarrow>
      inDiscussion (fst (pdf_step st line)) =
        (if startsWith rest ''DISCUSSION'' then True
         else if includesStr (trim line) ''DISCUSSION'' then inDiscussion st else False) \<and>
      inDiscussion (fst (scr_step st line)) =
        (if startsWith rest ''DISCUSSION'' then True
         else if includesStr (trim line) ''DISCUSSION'' then inDiscussion st else False))
   \<and> (\<not> isNumbered (trim line) \<longrightarrow>
      inDiscussion (fst (pdf_step st line)) = inDiscussion st \<and>
      inDiscussion (fst (scr_step st line)) = inDiscussion st)"
proof (intro conjI impI)
  assume a: "trim line = ds @ ''.'' @ ws @ rest \<and> ds \<noteq> [] \<and> list_all isDigit ds \<and>
    ws \<noteq> [] \<and> list_all isSpace ws \<and> rest \<noteq> [] \<and> \<not> isSpace (hd rest)"
  then have np: "numPrefix (trim line) = Some (ds @ ''.'' @ ws, rest)"
    by (intro numPrefix_structure) simp_all
  have ne: "trim line \<noteq> []" using a by auto
  have td: "trackDiscussion (inDiscussion st) (trim line) =
        (if startsWith rest ''DISCUSSION'' then True
         else if includesStr (trim line) ''DISCUSSION'' then inDiscussion st else False)"
    by (simp add: trackDiscussion_def isDiscussionHeader_def isNumbered_def np)
  show "inDiscussion (fst (pdf_step st line)) =
        (if startsWith rest ''DISCUSSION'' then True
         else if includesStr (trim line) ''DISCUSSION'' then inDiscussion st else False)"
    using pdf_step_disc [OF ne] td by simp
  show "inDiscussion (fst (scr_step st line)) =
        (if startsWith rest ''DISCUSSION'' then True
         else if includesStr (trim line) ''DISCUSSION'' then inDiscussion st else False)"
    using scr_step_disc [OF ne] td by simp
next
  assume n: "\<not> isNumbered (trim line)"
  have td: "trackDiscussion (inDiscussion st) (trim line) = inDiscussion st"
    using n by (cases "numPrefix (trim line)") (simp_all add: trackDiscussion_def isDiscussionHeader_def isNumbered_def)
  show "inDiscussion (fst (pdf_step st line)) = inDiscussion st"
    using pdf_step_disc [of line st] step_blank [of line st] td by (cases "trim line = []") simp_all
  show "inDiscussion (fst (scr_step st line)) = inDiscussion st"
    using scr_step_disc [of line st] step_blank [of line st] td by (cases "trim line = []") simp_all
qed

text \<open>The definitions to unfold when a line is evaluated.\<close>

lemmas ev = isSpace_def isDigit_def isUpper_def isLower_def isLetter_def trim_def numPrefix_def
  isNumbered_def isDiscussionHeader_def trackDiscussion_def pdf_step_def scr_step_def
  pdf_isFullWidthLine_def scr_isFullWidthLine_def pdf_isBoldLine_def pdf_isAllCaps_def
  scr_isAllCaps_def initState_def Let_def

text \<open>
  The claim as stated fails: a header with DISCUSSION at a later position does not set the
  flag, and a header with the word in mixed case clears it.
\<close>

theorem C4_counterexample:
  "isNumbered ''5. PUBLIC DISCUSSION'' \<and> includesStr ''5. PUBLIC DISCUSSION'' ''DISCUSSION''
   \<and> \<not> inDiscussion (fst (pdf_step initState ''5. PUBLIC DISCUSSION''))
   \<and> \<not> inDiscussion (fst (scr_step initState ''5. PUBLIC DISCUSSION''))
   \<and> isNumbered ''4. Discussion Items'' \<and> includesStr ''4. Discussion Items'' ''Discussion''
   \<and> \<not> inDiscussion (fst (pdf_step \<lparr>insideSection = False, inDiscussion = True\<rparr> ''4. Discussion Items''))
   \<and> \<not> inDiscussion (fst (scr_step \<lparr>insideSection = False, inDiscussion = True\<rparr> ''4. Discussion Items''))"
  by (simp add: ev)

theorem C4_discussion_tracking_witness:
  "inDiscussion (fst (pdf_step initState ''  12.  DISCUSSION ITEMS ''))
   \<and> inDiscussion (fst (scr_step initState ''  12.  DISCUSSION ITEMS ''))
   \<and> inDiscussion (fst (pdf_step \<lparr>insideSection = True, inDiscussion = True\<rparr> ''Councilmember Smith''))
   \<and> inDiscussion (fst (scr_step \<lparr>insideSection = True, inDiscussion = True\<rparr> ''Councilmember Smith''))"
proof -
  have t: "trim ''  12.  DISCUSSION ITEMS '' = ''12'' @ ''.'' @ ''  '' @ ''DISCUSSION ITEMS''"
    by (simp add: trim_def isSpace_def)
  have h: "trim ''  12.  DISCUSSION ITEMS '' = ''12'' @ ''.'' @ ''  '' @ ''DISCUSSION ITEMS'' \<and> ''12'' \<noteq> [] \<and> list_all isDigit ''12'' \<and>
    ''  '' \<noteq> [] \<and> list_all isSpace ''  '' \<and> ''DISCUSSION ITEMS'' \<noteq> [] \<and> \<not> isSpace (hd ''DISCUSSION ITEMS'')"
    using t by (simp add: isDigit_def isSpace_def)
  have n: "\<not> isNumbered (trim ''Councilmember Smith'')"
    by (simp add: ev)
  show ?thesis
    using C4_discussion_tracking [of "''  12.  DISCUSSION ITEMS ''" "''12''" "''  ''" "''DISCUSSION ITEMS''" initState] h
      C4_discussion_tracking [of "''Councilmember Smith''" "[]" "[]" "[]" "\<lparr>insideSection = True, inDiscussion = True\<rparr>"] n
    by simp
qed

subsection \<open>Full-width lines and the all-caps rule\<close>

lemma pdf_step_role:
  "role (snd (pdf_step st line)) =
     (if trim line = [] then Blank
      else if isNumbered (trim line) then SectionHeader
      else if insideSection st \<and> \<not> pdf_isFullWidthLine (trim line) then SectionBody
      else FullWidth)"
  by (cases "numPrefix (trim line)") (auto simp: pdf_step_def isNumbered_def Let_def)

lemma scr_step_role:
  "role (snd (scr_step st line)) =
     (if trim line = [] then Blank
      else if isNumbered (trim line) then SectionHeader
      else if insideSection st \<and> \<not> scr_isFullWidthLine (trim line) then SectionBody
      else FullWidth)"
  by (cases "numPrefix (trim line)") (auto simp: scr_step_def isNumbered_def Let_def)

lemma pdf_step_bold:
  "bold (snd (pdf_step st line)) =
     (trim line \<noteq> [] \<and>
      (isNumbered (trim line) \<or>
       insideSection st \<and> \<not> pdf_isFullWidthLine (trim line) \<and>
       pdf_isBoldLine (trim line) (trackDiscussion (inDiscussion st) (trim line))))"
  by (cases "numPrefix (trim line)") (auto simp: pdf_step_def isNumbered_def Let_def)

lemma scr_step_bold:
  "bold (snd (scr_step st line)) =
     (trim line \<noteq> [] \<and>
      (isNumbered (trim line) \<or>
       insideSection st \<and> \<not> scr_isFullWidthLine (trim line) \<and>
       (scr_isAllCaps (trim line) \<or>
        trackDiscussion (inDiscussion st) (trim line) \<and>
        (startsWith (trim line) ''Councilmember'' \<or> startsWith (trim line) ''Council President'' \<or>
         startsWith (trim line) ''Council Vice President'' \<or> isItemA (trim line)))))"
  by (cases "numPrefix (trim line)") (auto simp: scr_step_def isNumbered_def Let_def)

lemma writeText_regular:
  "boxBold (snd (writeText hos t x w centered False c)) = False"
  by (simp add: writeText_def ensureSpace_def startNewPage_def Let_def)

lemma writeText_text:
  "boxText (snd (writeText hos t x w centered b c)) = t
   \<and> boxX (snd (writeText hos t x w centered b c)) = x
   \<and> boxWidth (snd (writeText hos t x w centered b c)) = w
   \<and> boxCentered (snd (writeText hos t x w centered b c)) = centered"
  by (simp add: writeText_def Let_def)

lemma pdf_step_content:
  "role (snd (pdf_step st line)) = FullWidth \<Longrightarrow> content (snd (pdf_step st line)) = trim line"
  by (cases "numPrefix (trim line)") (auto simp: pdf_step_def Let_def split: if_splits)

text \<open>
  C5, as the code has it.  A body line that either loop classifies as full-width is never
  bold, whatever share of its letters is upper case.  The screen renderer gives its
  paragraph no font weight.  The paginated renderer hands it to \<^verbatim>\<open>writeText\<close> without
  the bold option, and for every measure and every position on the page draws one block
  for it, with the trimmed line as its text, at the left margin, in the regular font.
\<close>

theorem C5_fullwidth_not_bold:
  "(role (snd (scr_step st line)) = FullWidth \<longrightarrow> \<not> bold (snd (scr_step st line)))
   \<and> (role (snd (pdf_step st line)) = FullWidth \<longrightarrow>
        \<not> bold (snd (pdf_step st line))
        \<and> map boxBold (snd (pdf_place hos c (snd (pdf_step st line)))) = [False]
        \<and> map boxText (snd (pdf_place hos c (snd (pdf_step st line)))) = [trim line]
        \<and> map boxX (snd (pdf_place hos c (snd (pdf_step st line)))) = [marginLeft])"
proof (intro conjI impI)
  assume "role (snd (scr_step st line)) = FullWidth"
  then show "\<not> bold (snd (scr_step st line))"
    by (simp add: scr_step_role scr_step_bold split: if_splits)
next
  assume r: "role (snd (pdf_step st line)) = FullWidth"
  then show "\<not> bold (snd (pdf_step st line))"
    by (simp add: pdf_step_role pdf_step_bold split: if_splits)
  show "map boxBold (snd (pdf_place hos c (snd (pdf_step st line)))) = [False]"
    using r by (simp add: pdf_place_def Let_def writeText_regular)
  show "map boxText (snd (pdf_place hos c (snd (pdf_step st line)))) = [trim line]"
    using r pdf_step_content [OF r] by (simp add: pdf_place_def Let_def writeText_text)
  show "map boxX (snd (pdf_place hos c (snd (pdf_step st line)))) = [marginLeft]"
    using r by (simp add: pdf_place_def Let_def writeText_text)
qed

text \<open>
  The claim as stated fails: outside a section the line RESOLUTIONS, all of whose letters
  are upper case, is full-width and not bold in either renderer; the paginated renderer
  draws it in the regular font.
\<close>

theorem C5_counterexample:
  "role (snd (pdf_step initState ''RESOLUTIONS'')) = FullWidth
   \<and> pdf_isAllCaps ''RESOLUTIONS''
   \<and> \<not> bold (snd (pdf_step initState ''RESOLUTIONS''))
   \<and> map boxBold (snd (pdf_place (\<lambda>b t w. 11) \<lparr>curY = 116, pageNum = 1, curBold = False\<rparr>
         (snd (pdf_step initState ''RESOLUTIONS'')))) = [False]
   \<and> role (snd (scr_step initState ''RESOLUTIONS'')) = FullWidth
   \<and> scr_isAllCaps ''RESOLUTIONS''
   \<and> \<not> bold (snd (scr_step initState ''RESOLUTIONS''))"
proof -
  have p: "pdf_step initState ''RESOLUTIONS'' =
      (initState, \<lparr>role = FullWidth, bold = False, indentLevel = 0, numText = [],
                   content = ''RESOLUTIONS''\<rparr>)"
    by (simp add: ev)
  have b: "map boxBold (snd (pdf_place (\<lambda>b t w. 11) \<lparr>curY = 116, pageNum = 1, curBold = False\<rparr>
         \<lparr>role = FullWidth, bold = False, indentLevel = 0, numText = [],
           content = ''RESOLUTIONS''\<rparr>)) = [False]"
    by (simp add: pdf_place_def Let_def writeText_regular)
  have r: "role (snd (scr_step initState ''RESOLUTIONS'')) = FullWidth
      \<and> \<not> bold (snd (scr_step initState ''RESOLUTIONS''))"
    by (simp add: ev)
  have a: "pdf_isAllCaps ''RESOLUTIONS''" "scr_isAllCaps ''RESOLUTIONS''"
    by (simp_all add: ev)
  show ?thesis using p b r a by simp
qed

theorem C5_fullwidth_not_bold_witness:
  "role (snd (pdf_step initState ''On a motion, ADJOURNED'')) = FullWidth
   \<and> \<not> bold (snd (pdf_step initState ''On a motion, ADJOURNED''))
   \<and> map boxBold (snd (pdf_place (\<lambda>b t w. 11) \<lparr>curY = 700, pageNum = 1, curBold = True\<rparr>
         (snd (pdf_step initState ''On a motion, ADJOURNED'')))) = [False]
   \<and> role (snd (scr_step initState ''On a motion, ADJOURNED'')) = FullWidth
   \<and> \<not> bold (snd (scr_step initState ''On a motion, ADJOURNED''))"
proof -
  have r1: "role (snd (pdf_step initState ''On a motion, ADJOURNED'')) = FullWidth"
    by (simp add: ev)
  have r2: "role (snd (scr_step initState ''On a motion, ADJOURNED'')) = FullWidth"
    by (simp add: ev)
  show ?thesis
    using r1 r2
      C5_fullwidth_not_bold [of initState "''On a motion, ADJOURNED''" "\<lambda>b t w. 11"
        "\<lparr>curY = 700, pageNum = 1, curBold = True\<rparr>"]
    by blast
qed

subsection \<open>A signature line above the title boundary\<close>

lemma titleScan_first:
  "b < length ls \<Longrightarrow> isTitleBoundary (ls ! b) \<Longrightarrow> list_all (\<lambda>l. \<not> isTitleBoundary l) (take b ls)
   \<Longrightarrow> titleScan i ls = i + b"
proof (induction ls arbitrary: i b)
  case Nil then show ?case by simp
next
  case (Cons l ls)
  show ?case
  proof (cases b)
    case 0 with Cons.prems show ?thesis by simp
  next
    case (Suc b')
    with Cons.prems have "titleScan (Suc i) ls = Suc i + b'"
      by (intro Cons.IH) simp_all
    with Suc Cons.prems show ?thesis by simp
  qed
qed

lemma sigScan_last:
  "u < n \<Longrightarrow> n \<le> length ls \<Longrightarrow> includesStr (ls ! u) ''___'' \<Longrightarrow>
   list_all (\<lambda>l. \<not> includesStr l ''___'') (drop (Suc u) ls) \<Longrightarrow> sigScan n ls = u"
proof (induction n)
  case 0 then show ?case by simp
next
  case (Suc n)
  show ?case
  proof (cases "u = n")
    case True with Suc.prems show ?thesis by simp
  next
    case False
    with Suc.prems have un: "u < n" by simp
    have "ls ! n \<in> set (drop (Suc u) ls)"
    proof -
      have "drop (Suc u) ls ! (n - Suc u) = ls ! n" using un Suc.prems by simp
      moreover have "n - Suc u < length (drop (Suc u) ls)" using un Suc.prems by simp
      ultimately show ?thesis by (metis nth_mem)
    qed
    then have "\<not> includesStr (ls ! n) ''___''" using Suc.prems(4) by (simp add: list_all_iff)
    moreover have "sigScan n ls = u" using un Suc.prems by (intro Suc.IH) simp_all
    ultimately show ?thesis by simp
  qed
qed

subsection \<open>Timestamps of review markers\<close>

lemma tsSeconds_None: "fst (tsSeconds r) = None \<Longrightarrow> snd (tsSeconds r) = r"
  by (induction r rule: tsSeconds.induct) (auto split: if_splits)

lemma colon_not_digit: "\<not> isDigit CHR '':''"
  by (simp add: isDigit_def)

lemma tsAt_MSS:
  assumes "mm = [d1] \<or> mm = [d1, d2]" and "list_all isDigit mm"
    and "isDigit s1" and "isDigit s2" and "fst (tsSeconds post) = None"
  shows "tsAt (CHR ''@'' # mm @ CHR '':'' # s1 # s2 # post) = Some (mm, [s1, s2], None, post)"
  using assms tsSeconds_None [OF assms(5)] by (auto simp: colon_not_digit)

lemma tsAt_HMMSS:
  assumes "hh = [d1] \<or> hh = [d1, d2]" and "list_all isDigit hh"
    and "isDigit m1" and "isDigit m2" and "isDigit s1" and "isDigit s2"
  shows "tsAt (CHR ''@'' # hh @ CHR '':'' # m1 # m2 # CHR '':'' # s1 # s2 # post)
         = Some (hh, [m1, m2], Some [s1, s2], post)"
  using assms by (auto simp: colon_not_digit)

lemma tsSearch_skip: "noTsBefore pre s \<Longrightarrow> tsSearch (pre @ s) = tsSearch s"
  by (induction pre) auto

lemma noTsBefore_no_at: "CHR ''@'' \<notin> set pre \<Longrightarrow> noTsBefore pre s"
  by (induction pre) auto

lemma tsSearch_at: "tsAt (c # cs) = Some m \<Longrightarrow> tsSearch (c # cs) = Some m"
  by simp

lemma parse_MSS:
  assumes "noTsBefore pre (CHR ''@'' # mm @ CHR '':'' # s1 # s2 # post)"
    and "mm = [d1] \<or> mm = [d1, d2]" and "list_all isDigit mm"
    and "isDigit s1" and "isDigit s2" and "fst (tsSeconds post) = None"
  shows "parseReviewTimestamp (pre @ CHR ''@'' # mm @ CHR '':'' # s1 # s2 # post)
         = Some \<lparr>display = mm @ '':'' @ [s1, s2],
                  seconds = parseInt mm * 60 + parseInt [s1, s2]\<rparr>"
proof -
  have "tsSearch (pre @ CHR ''@'' # mm @ CHR '':'' # s1 # s2 # post)
        = Some (mm, [s1, s2], None, post)"
    using tsSearch_skip [OF assms(1)] tsSearch_at [OF tsAt_MSS [OF assms(2-6)]] by simp
  then show ?thesis by (simp add: parseReviewTimestamp_def Let_def)
qed

lemma parse_HMMSS:
  assumes "noTsBefore pre (CHR ''@'' # hh @ CHR '':'' # m1 # m2 # CHR '':'' # s1 # s2 # post)"
    and "hh = [d1] \<or> hh = [d1, d2]" and "list_all isDigit hh"
    and "isDigit m1" and "isDigit m2" and "isDigit s1" and "isDigit s2"
  shows "parseReviewTimestamp (pre @ CHR ''@'' # hh @ CHR '':'' # m1 # m2 # CHR '':'' # s1 # s2 # post)
         = Some \<lparr>display = showNat (parseInt hh) @ '':'' @ [m1, m2] @ '':'' @ [s1, s2],
                  seconds = parseInt hh * 3600 + parseInt [m1, m2] * 60 + parseInt [s1, s2]\<rparr>"
proof -
  have "tsSearch (pre @ CHR ''@'' # hh @ CHR '':'' # m1 # m2 # CHR '':'' # s1 # s2 # post)
        = Some (hh, [m1, m2], Some [s1, s2], post)"
    using tsSearch_skip [OF assms(1)] tsSearch_at [OF tsAt_HMMSS [OF assms(2-7)]] by simp
  then show ?thesis by (simp add: parseReviewTimestamp_def Let_def)
qed

lemma parseInt_one: "parseInt [a] = digitVal a"
  by (simp add: parseInt_def)

lemma parseInt_two: "parseInt [a, b] = 10 * digitVal a + digitVal b"
  by (simp add: parseInt_def)

lemma digitVal_less: "isDigit c \<Longrightarrow> digitVal c < 10"
  by (auto simp: isDigit_def digitVal_def)

lemma showNat_small: "n < 10 \<Longrightarrow> showNat n = [''0123456789'' ! n]"
  by (subst showNat.simps) simp

lemma showNat_digit: "isDigit c \<Longrightarrow> showNat (digitVal c) = [c]"
  by (auto simp: isDigit_def digitVal_def showNat_small)

lemma showNat_two:
  assumes "isDigit a" "isDigit b"
  shows "showNat (10 * digitVal a + digitVal b) = (if a = CHR ''0'' then [b] else [a, b])"
proof (cases "a = CHR ''0''")
  case True
  then show ?thesis using showNat_digit [OF assms(2)] by (simp add: digitVal_def)
next
  case False
  have a: "0 < digitVal a" using False assms(1) by (auto simp: isDigit_def digitVal_def)
  have d: "(10 * digitVal a + digitVal b) div 10 = digitVal a"
      "(10 * digitVal a + digitVal b) mod 10 = digitVal b"
    using digitVal_less [OF assms(2)] by simp_all
  have n: "\<not> 10 * digitVal a + digitVal b < 10" using a by simp
  have "showNat (10 * digitVal a + digitVal b) = showNat (digitVal a) @ [''0123456789'' ! digitVal b]"
    using n d by (subst showNat.simps) simp
  moreover have "[''0123456789'' ! digitVal b] = showNat (digitVal b)"
    using digitVal_less [OF assms(2)] by (simp add: showNat_small)
  ultimately show ?thesis
    using False showNat_digit [OF assms(1)] showNat_digit [OF assms(2)] by simp
qed


lemma one_or_two: "length xs = 1 \<or> length xs = 2 \<Longrightarrow> \<exists>a b. xs = [a] \<or> xs = [a, b]"
  by (cases xs; cases "tl xs"; cases "tl (tl xs)") auto

lemma hour_display:
  assumes "length hh = 1 \<or> length hh = 2" and "list_all isDigit hh"
  shows "showNat (parseInt hh) = (if length hh = 2 \<and> hd hh = CHR ''0'' then tl hh else hh)"
proof -
  obtain a b where "hh = [a] \<or> hh = [a, b]" using one_or_two [OF assms(1)] by blast
  then show ?thesis
    using assms(2) by (auto simp: parseInt_one parseInt_two showNat_digit showNat_two)
qed

text \<open>The definitions to unfold when a marker is evaluated.\<close>

lemmas ev_ts = parseReviewTimestamp_def stripTimestamp_def tsStripAt_def brAt_def parseInt_def
  digitVal_def isDigit_def isSpace_def showNat_small Let_def

text \<open>
  C6, as the code has it.  Stripping the timestamp from the marker of the example gives
  the marker without it, and parsing the same marker gives 83 seconds.  In general, where
  the leftmost match of the pattern has the form \<open>@M:SS\<close> the seconds are \<open>M * 60 + SS\<close>
  and the display is the matched time as written; where it has the form \<open>@H:MM:SS\<close> the
  seconds are \<open>H * 3600 + MM * 60 + SS\<close> and the display is the parsed hour printed in
  decimal, so without the leading zero of a two-digit hour, followed by \<open>:MM:SS\<close> as written.
\<close>

theorem C6_timestamp_roundtrip:
  "stripTimestamp ''[REVIEW: check wording @1:23]'' = ''[REVIEW: check wording]''
   \<and> parseReviewTimestamp ''[REVIEW: check wording @1:23]'' = Some \<lparr>display = ''1:23'', seconds = 83\<rparr>
   \<and> (noTsBefore pre (CHR ''@'' # mm @ CHR '':'' # s1 # s2 # post) \<and>
       (length mm = 1 \<or> length mm = 2) \<and> list_all isDigit mm \<and> isDigit s1 \<and> isDigit s2 \<and>
       fst (tsSeconds post) = None \<longrightarrow>
       parseReviewTimestamp (pre @ CHR ''@'' # mm @ CHR '':'' # s1 # s2 # post)
         = Some \<lparr>display = mm @ '':'' @ [s1, s2],
                  seconds = parseInt mm * 60 + parseInt [s1, s2]\<rparr>)
   \<and> (noTsBefore pre (CHR ''@'' # hh @ CHR '':'' # m1 # m2 # CHR '':'' # t1 # t2 # post) \<and>
       (length hh = 1 \<or> length hh = 2) \<and> list_all isDigit hh \<and> isDigit m1 \<and> isDigit m2 \<and>
       isDigit t1 \<and> isDigit t2 \<longrightarrow>
       parseReviewTimestamp (pre @ CHR ''@'' # hh @ CHR '':'' # m1 # m2 # CHR '':'' # t1 # t2 # post)
         = Some \<lparr>display = (if length hh = 2 \<and> hd hh = CHR ''0'' then tl hh else hh)
                            @ '':'' @ [m1, m2] @ '':'' @ [t1, t2],
                  seconds = parseInt hh * 3600 + parseInt [m1, m2] * 60 + parseInt [t1, t2]\<rparr>)"
proof (intro conjI impI)
  show "stripTimestamp ''[REVIEW: check wording @1:23]'' = ''[REVIEW: check wording]''"
    by (simp add: ev_ts)
  show "parseReviewTimestamp ''[REVIEW: check wording @1:23]'' = Some \<lparr>display = ''1:23'', seconds = 83\<rparr>"
    by (simp add: ev_ts)
next
  assume a: "noTsBefore pre (CHR ''@'' # mm @ CHR '':'' # s1 # s2 # post) \<and>
       (length mm = 1 \<or> length mm = 2) \<and> list_all isDigit mm \<and> isDigit s1 \<and> isDigit s2 \<and>
       fst (tsSeconds post) = None"
  then obtain a b where "mm = [a] \<or> mm = [a, b]" using one_or_two by blast
  with a show "parseReviewTimestamp (pre @ CHR ''@'' # mm @ CHR '':'' # s1 # s2 # post)
         = Some \<lparr>display = mm @ '':'' @ [s1, s2],
                  seconds = parseInt mm * 60 + parseInt [s1, s2]\<rparr>"
    by (intro parse_MSS) simp_all
next
  assume a: "noTsBefore pre (CHR ''@'' # hh @ CHR '':'' # m1 # m2 # CHR '':'' # t1 # t2 # post) \<and>
       (length hh = 1 \<or> length hh = 2) \<and> list_all isDigit hh \<and> isDigit m1 \<and> isDigit m2 \<and>
       isDigit t1 \<and> isDigit t2"
  then obtain a b where ab: "hh = [a] \<or> hh = [a, b]" using one_or_two by blast
  have "parseReviewTimestamp (pre @ CHR ''@'' # hh @ CHR '':'' # m1 # m2 # CHR '':'' # t1 # t2 # post)
         = Some \<lparr>display = showNat (parseInt hh) @ '':'' @ [m1, m2] @ '':'' @ [t1, t2],
                  seconds = parseInt hh * 3600 + parseInt [m1, m2] * 60 + parseInt [t1, t2]\<rparr>"
    using a ab by (intro parse_HMMSS) simp_all
  moreover have "showNat (parseInt hh) = (if length hh = 2 \<and> hd hh = CHR ''0'' then tl hh else hh)"
    using a by (intro hour_display) simp_all
  ultimately show "parseReviewTimestamp (pre @ CHR ''@'' # hh @ CHR '':'' # m1 # m2 # CHR '':'' # t1 # t2 # post)
         = Some \<lparr>display = (if length hh = 2 \<and> hd hh = CHR ''0'' then tl hh else hh)
                            @ '':'' @ [m1, m2] @ '':'' @ [t1, t2],
                  seconds = parseInt hh * 3600 + parseInt [m1, m2] * 60 + parseInt [t1, t2]\<rparr>"
    by simp
qed

text \<open>
  The claim as stated fails on the display of the \<open>H:MM:SS\<close> form: the time is written
  \<open>01:02:03\<close> in the marker and displayed as \<open>1:02:03\<close>.
\<close>

theorem C6_counterexample:
  "tsSearch ''[REVIEW: late vote @01:02:03]'' = Some (''01'', ''02'', Some ''03'', '']'')
   \<and> map_option display (parseReviewTimestamp ''[REVIEW: late vote @01:02:03]'') = Some ''1:02:03''
   \<and> ''1:02:03'' \<noteq> ''01:02:03''"
  by (simp add: ev_ts)

theorem C6_timestamp_roundtrip_witness:
  "parseReviewTimestamp ''[REVIEW: a@b @12:05]'' = Some \<lparr>display = ''12:05'', seconds = 725\<rparr>
   \<and> parseReviewTimestamp ''[REVIEW: c @01:02:03 d]'' = Some \<lparr>display = ''1:02:03'', seconds = 3723\<rparr>"
proof -
  have h1: "noTsBefore ''[REVIEW: a@b '' (CHR ''@'' # ''12'' @ CHR '':'' # CHR ''0'' # CHR ''5'' # '']'') \<and>
       (length ''12'' = 1 \<or> length ''12'' = 2) \<and> list_all isDigit ''12'' \<and> isDigit CHR ''0'' \<and> isDigit CHR ''5'' \<and>
       fst (tsSeconds '']'') = None"
    by (simp add: isDigit_def)
  have h2: "noTsBefore ''[REVIEW: c '' (CHR ''@'' # ''01'' @ CHR '':'' # CHR ''0'' # CHR ''2'' # CHR '':'' # CHR ''0'' # CHR ''3'' # '' d]'') \<and>
       (length ''01'' = 1 \<or> length ''01'' = 2) \<and> list_all isDigit ''01'' \<and> isDigit CHR ''0'' \<and> isDigit CHR ''2'' \<and>
       isDigit CHR ''0'' \<and> isDigit CHR ''3''"
    by (simp add: isDigit_def)
  have v: "parseInt ''12'' = 12" "parseInt ''05'' = 5" "parseInt ''01'' = 1" "parseInt ''02'' = 2"
    "parseInt ''03'' = 3"
    by (simp_all add: parseInt_def digitVal_def)
  show ?thesis
    using h1 h2 v
      C6_timestamp_roundtrip [of "''[REVIEW: a@b ''" "''12''" "CHR ''0''" "CHR ''5''" "'']''"
        "[]" "CHR ''0''" "CHR ''0''" "CHR ''0''" "CHR ''0''"]
      C6_timestamp_roundtrip [of "''[REVIEW: c ''" "[]" "CHR ''0''" "CHR ''0''" "'' d]''"
        "''01''" "CHR ''0''" "CHR ''2''" "CHR ''0''" "CHR ''3''"]
    by simp
qed

text \<open>
  C10.  The parser validates no range.  Where the leftmost match has the form \<open>@M:SS\<close>,
  with any two digits \<open>SS\<close> from 00 to 99, parsing succeeds with \<open>M * 60 + SS\<close> seconds;
  where it has the form \<open>@H:MM:SS\<close>, with any digits, it succeeds with
  \<open>H * 3600 + MM * 60 + SS\<close> seconds.  So \<open>@1:99\<close> gives 159 seconds, and \<open>@1:75:80\<close>
  gives 8180 seconds.
\<close>

theorem C10_no_range_validation:
  "(noTsBefore pre (CHR ''@'' # mm @ CHR '':'' # s1 # s2 # post) \<and>
       (length mm = 1 \<or> length mm = 2) \<and> list_all isDigit mm \<and> isDigit s1 \<and> isDigit s2 \<and>
       fst (tsSeconds post) = None \<longrightarrow>
     map_option seconds (parseReviewTimestamp (pre @ CHR ''@'' # mm @ CHR '':'' # s1 # s2 # post))
       = Some (parseInt mm * 60 + (10 * digitVal s1 + digitVal s2)))
   \<and> (noTsBefore pre (CHR ''@'' # hh @ CHR '':'' # m1 # m2 # CHR '':'' # t1 # t2 # post) \<and>
       (length hh = 1 \<or> length hh = 2) \<and> list_all isDigit hh \<and> isDigit m1 \<and> isDigit m2 \<and>
       isDigit t1 \<and> isDigit t2 \<longrightarrow>
     map_option seconds
       (parseReviewTimestamp (pre @ CHR ''@'' # hh @ CHR '':'' # m1 # m2 # CHR '':'' # t1 # t2 # post))
       = Some (parseInt hh * 3600 + (10 * digitVal m1 + digitVal m2) * 60
               + (10 * digitVal t1 + digitVal t2)))
   \<and> map_option seconds (parseReviewTimestamp ''[REVIEW: x @1:99]'') = Some 159
   \<and> map_option seconds (parseReviewTimestamp ''[REVIEW: x @1:75:80]'') = Some 8180"
proof (intro conjI impI)
  assume a: "noTsBefore pre (CHR ''@'' # mm @ CHR '':'' # s1 # s2 # post) \<and>
       (length mm = 1 \<or> length mm = 2) \<and> list_all isDigit mm \<and> isDigit s1 \<and> isDigit s2 \<and>
       fst (tsSeconds post) = None"
  then obtain a b where ab: "mm = [a] \<or> mm = [a, b]" using one_or_two by blast
  have "parseReviewTimestamp (pre @ CHR ''@'' # mm @ CHR '':'' # s1 # s2 # post)
         = Some \<lparr>display = mm @ '':'' @ [s1, s2],
                  seconds = parseInt mm * 60 + parseInt [s1, s2]\<rparr>"
    using a ab by (intro parse_MSS) simp_all
  then show "map_option seconds (parseReviewTimestamp (pre @ CHR ''@'' # mm @ CHR '':'' # s1 # s2 # post))
       = Some (parseInt mm * 60 + (10 * digitVal s1 + digitVal s2))"
    by (simp add: parseInt_two)
next
  assume a: "noTsBefore pre (CHR ''@'' # hh @ CHR '':'' # m1 # m2 # CHR '':'' # t1 # t2 # post) \<and>
       (length hh = 1 \<or> length hh = 2) \<and> list_all isDigit hh \<and> isDigit m1 \<and> isDigit m2 \<and>
       isDigit t1 \<and> isDigit t2"
  then obtain a b where ab: "hh = [a] \<or> hh = [a, b]" using one_or_two by blast
  have "parseReviewTimestamp (pre @ CHR ''@'' # hh @ CHR '':'' # m1 # m2 # CHR '':'' # t1 # t2 # post)
         = Some \<lparr>display = showNat (parseInt hh) @ '':'' @ [m1, m2] @ '':'' @ [t1, t2],
                  seconds = parseInt hh * 3600 + parseInt [m1, m2] * 60 + parseInt [t1, t2]\<rparr>"
    using a ab by (intro parse_HMMSS) simp_all
  then show "map_option seconds
       (parseReviewTimestamp (pre @ CHR ''@'' # hh @ CHR '':'' # m1 # m2 # CHR '':'' # t1 # t2 # post))
       = Some (parseInt hh * 3600 + (10 * digitVal m1 + digitVal m2) * 60
               + (10 * digitVal t1 + digitVal t2))"
    by (simp add: parseInt_two)
next
  show "map_option seconds (parseReviewTimestamp ''[REVIEW: x @1:99]'') = Some 159"
    by (simp add: ev_ts)
  show "map_option seconds (parseReviewTimestamp ''[REVIEW: x @1:75:80]'') = Some 8180"
    by (simp add: ev_ts)
qed

theorem C10_no_range_validation_witness:
  "map_option seconds (parseReviewTimestamp ''[REVIEW: y @7:61]'') = Some 481
   \<and> map_option seconds (parseReviewTimestamp ''[REVIEW: y @2:99:99]'') = Some 13239"
proof -
  have h1: "noTsBefore ''[REVIEW: y '' (CHR ''@'' # ''7'' @ CHR '':'' # CHR ''6'' # CHR ''1'' # '']'') \<and>
       (length ''7'' = 1 \<or> length ''7'' = 2) \<and> list_all isDigit ''7'' \<and> isDigit CHR ''6'' \<and> isDigit CHR ''1'' \<and>
       fst (tsSeconds '']'') = None"
    by (simp add: isDigit_def)
  have h2: "noTsBefore ''[REVIEW: y '' (CHR ''@'' # ''2'' @ CHR '':'' # CHR ''9'' # CHR ''9'' # CHR '':'' # CHR ''9'' # CHR ''9'' # '']'') \<and>
       (length ''2'' = 1 \<or> length ''2'' = 2) \<and> list_all isDigit ''2'' \<and> isDigit CHR ''9'' \<and> isDigit CHR ''9'' \<and>
       isDigit CHR ''9'' \<and> isDigit CHR ''9''"
    by (simp add: isDigit_def)
  have v: "parseInt ''7'' = 7" "parseInt ''2'' = 2" "digitVal CHR ''6'' = 6" "digitVal CHR ''1'' = 1"
    "digitVal CHR ''9'' = 9"
    by (simp_all add: parseInt_def digitVal_def)
  show ?thesis
    using h1 h2 v
      C10_no_range_validation [of "''[REVIEW: y ''" "''7''" "CHR ''6''" "CHR ''1''" "'']''"
        "[]" "CHR ''0''" "CHR ''0''" "CHR ''0''" "CHR ''0''"]
      C10_no_range_validation [of "''[REVIEW: y ''" "[]" "CHR ''0''" "CHR ''0''" "'']''"
        "''2''" "CHR ''9''" "CHR ''9''" "CHR ''9''" "CHR ''9''"]
    by simp
qed

subsection \<open>The concrete scenario\<close>

lemma scenario_scr_lines: "scr_lines scenarioText = scenarioLines"
  by (simp add: scr_lines_def scenarioText_def scenarioLines_def)

lemma scenario_pdf_lines: "pdf_lines scenarioText = scenarioLines"
  by (simp add: pdf_lines_def scenarioText_def scenarioLines_def replaceTabs_def)

lemma scenario_titleEnd: "findTitleEnd scenarioLines = 2"
  by (simp add: scenarioLines_def findTitleEnd_def isTitleBoundary_def trim_def isSpace_def)

lemma scenario_sigStart: "findSigStart scenarioLines = 8"
  by (simp add: scenarioLines_def findSigStart_def eval_nat_numeral)

lemma scenario_titles:
  "pdf_titleLines scenarioLines = [''TOWNSHIP OF EDISON'', ''MINUTES'']"
  "scr_titleLines scenarioLines = [''TOWNSHIP OF EDISON'', ''MINUTES'']"
  by (simp_all add: pdf_titleLines_def scr_titleLines_def slice_def scenario_titleEnd)
     (simp_all add: scenarioLines_def trim_def isSpace_def eval_nat_numeral)

lemma scenario_body:
  "bodyLines scenarioLines =
     [''A Regular Meeting of the Council was held...'',
      ''1. CALL TO ORDER'',
      ''The meeting was called to order at 7:00 PM.'',
      ''4. DISCUSSION ITEMS'',
      ''Councilmember Smith raised [REVIEW: budget concern @12:05]'',
      ''On a motion, the meeting was adjourned.'']"
  by (simp add: bodyLines_def slice_def scenario_titleEnd scenario_sigStart)
     (simp add: scenarioLines_def eval_nat_numeral)

lemma scenario_sig:
  "sigLines scenarioLines =
     [''_________________        _________________'',
      ''Jane Doe                 John Roe'',
      ''Council President         Township Clerk'']"
  by (simp add: sigLines_def scenario_sigStart) (simp add: scenarioLines_def eval_nat_numeral)

lemma scenario_step1:
  "pdf_step \<lparr>insideSection = False, inDiscussion = False\<rparr> ''A Regular Meeting of the Council was held...'' =
    (\<lparr>insideSection = False, inDiscussion = False\<rparr>,
     \<lparr>role = FullWidth, bold = False, indentLevel = 0, numText = [],
      content = ''A Regular Meeting of the Council was held...''\<rparr>)"
  "scr_step \<lparr>insideSection = False, inDiscussion = False\<rparr> ''A Regular Meeting of the Council was held...'' =
    (\<lparr>insideSection = False, inDiscussion = False\<rparr>,
     \<lparr>role = FullWidth, bold = False, indentLevel = 0, numText = [],
      content = ''A Regular Meeting of the Council was held...''\<rparr>)"
  by (simp_all add: ev)

lemma scenario_step2:
  "pdf_step \<lparr>insideSection = False, inDiscussion = False\<rparr> ''1. CALL TO ORDER'' =
    (\<lparr>insideSection = True, inDiscussion = False\<rparr>,
     \<lparr>role = SectionHeader, bold = True, indentLevel = 0, numText = ''1. '',
      content = ''CALL TO ORDER''\<rparr>)"
  "scr_step \<lparr>insideSection = False, inDiscussion = False\<rparr> ''1. CALL TO ORDER'' =
    (\<lparr>insideSection = True, inDiscussion = False\<rparr>,
     \<lparr>role = SectionHeader, bold = True, indentLevel = 0, numText = ''1. '',
      content = ''CALL TO ORDER''\<rparr>)"
  by (simp_all add: ev)

lemma scenario_step3:
  "pdf_step \<lparr>insideSection = True, inDiscussion = False\<rparr> ''The meeting was called to order at 7:00 PM.'' =
    (\<lparr>insideSection = True, inDiscussion = False\<rparr>,
     \<lparr>role = SectionBody, bold = False, indentLevel = 1, numText = [],
      content = ''The meeting was called to order at 7:00 PM.''\<rparr>)"
  "scr_step \<lparr>insideSection = True, inDiscussion = False\<rparr> ''The meeting was called to order at 7:00 PM.'' =
    (\<lparr>insideSection = True, inDiscussion = False\<rparr>,
     \<lparr>role = SectionBody, bold = False, indentLevel = 1, numText = [],
      content = ''The meeting was called to order at 7:00 PM.''\<rparr>)"
  by (simp_all add: ev)

lemma scenario_step4:
  "pdf_step \<lparr>insideSection = True, inDiscussion = False\<rparr> ''4. DISCUSSION ITEMS'' =
    (\<lparr>insideSection = True, inDiscussion = True\<rparr>,
     \<lparr>role = SectionHeader, bold = True, indentLevel = 0, numText = ''4. '',
      content = ''DISCUSSION ITEMS''\<rparr>)"
  "scr_step \<lparr>insideSection = True, inDiscussion = False\<rparr> ''4. DISCUSSION ITEMS'' =
    (\<lparr>insideSection = True, inDiscussion = True\<rparr>,
     \<lparr>role = SectionHeader, bold = True, indentLevel = 0, numText = ''4. '',
      content = ''DISCUSSION ITEMS''\<rparr>)"
  by (simp_all add: ev)

lemma scenario_step5:
  "pdf_step \<lparr>insideSection = True, inDiscussion = True\<rparr> ''Councilmember Smith raised [REVIEW: budget concern @12:05]'' =
    (\<lparr>insideSection = True, inDiscussion = True\<rparr>,
     \<lparr>role = SectionBody, bold = True, indentLevel = 1, numText = [],
      content = ''Councilmember Smith raised [REVIEW: budget concern @12:05]''\<rparr>)"
  "scr_step \<lparr>insideSection = True, inDiscussion = True\<rparr> ''Councilmember Smith raised [REVIEW: budget concern @12:05]'' =
    (\<lparr>insideSection = True, inDiscussion = True\<rparr>,
     \<lparr>role = SectionBody, bold = True, indentLevel = 1, numText = [],
      content = ''Councilmember Smith raised [REVIEW: budget concern @12:05]''\<rparr>)"
  by (simp_all add: ev)

lemma scenario_step6:
  "pdf_step \<lparr>insideSection = True, inDiscussion = True\<rparr> ''On a motion, the meeting was adjourned.'' =
    (\<lparr>insideSection = False, inDiscussion = True\<rparr>,
     \<lparr>role = FullWidth, bold = False, indentLevel = 0, numText = [],
      content = ''On a motion, the meeting was adjourned.''\<rparr>)"
  "scr_step \<lparr>insideSection = True, inDiscussion = True\<rparr> ''On a motion, the meeting was adjourned.'' =
    (\<lparr>insideSection = False, inDiscussion = True\<rparr>,
     \<lparr>role = FullWidth, bold = False, indentLevel = 0, numText = [],
      content = ''On a motion, the meeting was adjourned.''\<rparr>)"
  by (simp_all add: ev)

lemma scenario_review:
  "ReviewText ''Councilmember Smith raised [REVIEW: budget concern @12:05]'' None =
     [Span ''Councilmember Smith raised '',
      Review ''[REVIEW: budget concern]'' (Some \<lparr>display = ''12:05'', seconds = 725\<rparr>) None,
      Span []]"
  by (simp add: ReviewText_def markerAt_def isMarker_def ev_ts)

lemma scenario_split:
  "splitWs4 [] ''Jane Doe                 John Roe'' = [''Jane Doe'', ''John Roe'']"
  "splitWs4 [] ''Council President         Township Clerk'' = [''Council President'', ''Township Clerk'']"
  by (simp_all add: isSpace_def)

lemma scenario_sigParse:
  "pdf_sigParse (sigLines scenarioLines) =
     ([''Jane Doe'', ''John Roe''], [''Council President'', ''Township Clerk''])"
  "scr_sigParse (sigLines scenarioLines) =
     ([''Jane Doe'', ''John Roe''], [''Council President'', ''Township Clerk''])"
  by (simp_all add: scenario_sig pdf_sigParse_def scr_sigParse_def pdf_sigStep_def scr_sigStep_def
      scenario_split Let_def trim_def isSpace_def)


lemma scenario_pdf_body:
  "pdf_body initState (bodyLines scenarioLines) =
       [(\<lparr>insideSection = False, inDiscussion = False\<rparr>,
         \<lparr>role = FullWidth, bold = False, indentLevel = 0, numText = [],
          content = ''A Regular Meeting of the Council was held...''\<rparr>),
        (\<lparr>insideSection = True, inDiscussion = False\<rparr>,
         \<lparr>role = SectionHeader, bold = True, indentLevel = 0, numText = ''1. '',
          content = ''CALL TO ORDER''\<rparr>),
        (\<lparr>insideSection = True, inDiscussion = False\<rparr>,
         \<lparr>role = SectionBody, bold = False, indentLevel = 1, numText = [],
          content = ''The meeting was called to order at 7:00 PM.''\<rparr>),
        (\<lparr>insideSection = True, inDiscussion = True\<rparr>,
         \<lparr>role = SectionHeader, bold = True, indentLevel = 0, numText = ''4. '',
          content = ''DISCUSSION ITEMS''\<rparr>),
        (\<lparr>insideSection = True, inDiscussion = True\<rparr>,
         \<lparr>role = SectionBody, bold = True, indentLevel = 1, numText = [],
          content = ''Councilmember Smith raised [REVIEW: budget concern @12:05]''\<rparr>),
        (\<lparr>insideSection = False, inDiscussion = True\<rparr>,
         \<lparr>role = FullWidth, bold = False, indentLevel = 0, numText = [],
          content = ''On a motion, the meeting was adjourned.''\<rparr>)]"
  by (simp add: scenario_body initState_def Let_def scenario_step1 scenario_step2 scenario_step3
      scenario_step4 scenario_step5 scenario_step6)

lemma scenario_scr_body:
  "scr_body initState (bodyLines scenarioLines) =
       [(\<lparr>insideSection = False, inDiscussion = False\<rparr>,
         \<lparr>role = FullWidth, bold = False, indentLevel = 0, numText = [],
          content = ''A Regular Meeting of the Council was held...''\<rparr>),
        (\<lparr>insideSection = True, inDiscussion = False\<rparr>,
         \<lparr>role = SectionHeader, bold = True, indentLevel = 0, numText = ''1. '',
          content = ''CALL TO ORDER''\<rparr>),
        (\<lparr>insideSection = True, inDiscussion = False\<rparr>,
         \<lparr>role = SectionBody, bold = False, indentLevel = 1, numText = [],
          content = ''The meeting was called to order at 7:00 PM.''\<rparr>),
        (\<lparr>insideSection = True, inDiscussion = True\<rparr>,
         \<lparr>role = SectionHeader, bold = True, indentLevel = 0, numText = ''4. '',
          content = ''DISCUSSION ITEMS''\<rparr>),
        (\<lparr>insideSection = True, inDiscussion = True\<rparr>,
         \<lparr>role = SectionBody, bold = True, indentLevel = 1, numText = [],
          content = ''Councilmember Smith raised [REVIEW: budget concern @12:05]''\<rparr>),
        (\<lparr>insideSection = False, inDiscussion = True\<rparr>,
         \<lparr>role = FullWidth, bold = False, indentLevel = 0, numText = [],
          content = ''On a motion, the meeting was adjourned.''\<rparr>)]"
  by (simp add: scenario_body initState_def Let_def scenario_step1 scenario_step2 scenario_step3
      scenario_step4 scenario_step5 scenario_step6)

text \<open>
  C2.  On the eleven lines of the concrete scenario both renderers find the title lines
  TOWNSHIP OF EDISON and MINUTES; the body is the full-width meeting line, the bold header
  of section 1 with one indented line that is not bold, the bold header of section 4,
  which sets the discussion flag, with one indented bold line, and the full-width motion
  line, which clears the section flag; the screen renderer finds in the Councilmember
  line one review marker, displayed without its timestamp and carrying 725 seconds; and
  the signature block has the names Jane Doe and John Roe and the titles Council President
  and Township Clerk.
\<close>

theorem C2_concrete_scenario:
  "scr_titleLines (scr_lines scenarioText) = [''TOWNSHIP OF EDISON'', ''MINUTES'']
   \<and> pdf_titleLines (pdf_lines scenarioText) = [''TOWNSHIP OF EDISON'', ''MINUTES'']
   \<and> scr_body initState (bodyLines (scr_lines scenarioText)) =
       [(\<lparr>insideSection = False, inDiscussion = False\<rparr>,
         \<lparr>role = FullWidth, bold = False, indentLevel = 0, numText = [],
          content = ''A Regular Meeting of the Council was held...''\<rparr>),
        (\<lparr>insideSection = True, inDiscussion = False\<rparr>,
         \<lparr>role = SectionHeader, bold = True, indentLevel = 0, numText = ''1. '',
          content = ''CALL TO ORDER''\<rparr>),
        (\<lparr>insideSection = True, inDiscussion = False\<rparr>,
         \<lparr>role = SectionBody, bold = False, indentLevel = 1, numText = [],
          content = ''The meeting was called to order at 7:00 PM.''\<rparr>),
        (\<lparr>insideSection = True, inDiscussion = True\<rparr>,
         \<lparr>role = SectionHeader, bold = True, indentLevel = 0, numText = ''4. '',
          content = ''DISCUSSION ITEMS''\<rparr>),
        (\<lparr>insideSection = True, inDiscussion = True\<rparr>,
         \<lparr>role = SectionBody, bold = True, indentLevel = 1, numText = [],
          content = ''Councilmember Smith raised [REVIEW: budget concern @12:05]''\<rparr>),
        (\<lparr>insideSection = False, inDiscussion = True\<rparr>,
         \<lparr>role = FullWidth, bold = False, indentLevel = 0, numText = [],
          content = ''On a motion, the meeting was adjourned.''\<rparr>)]
   \<and> pdf_body initState (bodyLines (pdf_lines scenarioText)) =
       scr_body initState (bodyLines (scr_lines scenarioText))
   \<and> scr_inline None (snd (scr_body initState (bodyLines (scr_lines scenarioText)) ! 4)) =
       Parts [Span ''Councilmember Smith raised '',
              Review ''[REVIEW: budget concern]'' (Some \<lparr>display = ''12:05'', seconds = 725\<rparr>) None,
              Span []]
   \<and> scr_sigParse (sigLines (scr_lines scenarioText)) =
       ([''Jane Doe'', ''John Roe''], [''Council President'', ''Township Clerk''])
   \<and> pdf_sigParse (sigLines (pdf_lines scenarioText)) =
       ([''Jane Doe'', ''John Roe''], [''Council President'', ''Township Clerk''])
   \<and> scr_signature (scr_lines scenarioText) =
       Some \<lparr>leftName = ''Jane Doe'', rightName = ''John Roe'',
             leftTitle = ''Council President'', rightTitle = ''Township Clerk''\<rparr>
   \<and> pdf_signature (pdf_lines scenarioText) =
       \<lparr>leftName = ''Jane Doe'', rightName = ''John Roe'',
        leftTitle = ''Council President'', rightTitle = ''Township Clerk''\<rparr>"
proof (intro conjI)
  show "scr_titleLines (scr_lines scenarioText) = [''TOWNSHIP OF EDISON'', ''MINUTES'']"
    by (simp add: scenario_scr_lines scenario_titles)
  show "pdf_titleLines (pdf_lines scenarioText) = [''TOWNSHIP OF EDISON'', ''MINUTES'']"
    by (simp add: scenario_pdf_lines scenario_titles)
  show "scr_body initState (bodyLines (scr_lines scenarioText)) =
       [(\<lparr>insideSection = False, inDiscussion = False\<rparr>,
         \<lparr>role = FullWidth, bold = False, indentLevel = 0, numText = [],
          content = ''A Regular Meeting of the Council was held...''\<rparr>),
        (\<lparr>insideSection = True, inDiscussion = False\<rparr>,
         \<lparr>role = SectionHeader, bold = True, indentLevel = 0, numText = ''1. '',
          content = ''CALL TO ORDER''\<rparr>),
        (\<lparr>insideSection = True, inDiscussion = False\<rparr>,
         \<lparr>role = SectionBody, bold = False, indentLevel = 1, numText = [],
          content = ''The meeting was called to order at 7:00 PM.''\<rparr>),
        (\<lparr>insideSection = True, inDiscussion = True\<rparr>,
         \<lparr>role = SectionHeader, bold = True, indentLevel = 0, numText = ''4. '',
          content = ''DISCUSSION ITEMS''\<rparr>),
        (\<lparr>insideSection = True, inDiscussion = True\<rparr>,
         \<lparr>role = SectionBody, bold = True, indentLevel = 1, numText = [],
          content = ''Councilmember Smith raised [REVIEW: budget concern @12:05]''\<rparr>),
        (\<lparr>insideSection = False, inDiscussion = True\<rparr>,
         \<lparr>role = FullWidth, bold = False, indentLevel = 0, numText = [],
          content = ''On a motion, the meeting was adjourned.''\<rparr>)]"
    by (simp only: scenario_scr_lines scenario_scr_body)
  show "pdf_body initState (bodyLines (pdf_lines scenarioText)) =
       scr_body initState (bodyLines (scr_lines scenarioText))"
    by (simp only: scenario_scr_lines scenario_pdf_lines scenario_scr_body scenario_pdf_body)
  show "scr_inline None (snd (scr_body initState (bodyLines (scr_lines scenarioText)) ! 4)) =
       Parts [Span ''Councilmember Smith raised '',
              Review ''[REVIEW: budget concern]'' (Some \<lparr>display = ''12:05'', seconds = 725\<rparr>) None,
              Span []]"
    by (simp add: scenario_scr_lines scenario_scr_body scr_inline_def isHttpUrl_def
        scenario_review eval_nat_numeral)
  show "scr_sigParse (sigLines (scr_lines scenarioText)) =
       ([''Jane Doe'', ''John Roe''], [''Council President'', ''Township Clerk''])"
    by (simp only: scenario_scr_lines scenario_sigParse)
  show "pdf_sigParse (sigLines (pdf_lines scenarioText)) =
       ([''Jane Doe'', ''John Roe''], [''Council President'', ''Township Clerk''])"
    by (simp only: scenario_pdf_lines scenario_sigParse)
  show "scr_signature (scr_lines scenarioText) =
       Some \<lparr>leftName = ''Jane Doe'', rightName = ''John Roe'',
             leftTitle = ''Council President'', rightTitle = ''Township Clerk''\<rparr>"
    by (simp add: scenario_scr_lines scr_signature_def scenario_sigParse orDefault_def)
  show "pdf_signature (pdf_lines scenarioText) =
       \<lparr>leftName = ''Jane Doe'', rightName = ''John Roe'',
        leftTitle = ''Council President'', rightTitle = ''Township Clerk''\<rparr>"
    by (simp add: scenario_pdf_lines pdf_signature_def scenario_sigParse orDefault_def)
qed

subsection \<open>Missing signature fields\<close>

lemma sigStep_same: "pdf_sigStep acc line = scr_sigStep acc line"
  by (simp add: pdf_sigStep_def scr_sigStep_def Let_def)

lemma sigParse_same: "pdf_sigParse ls = scr_sigParse ls"
proof -
  have "pdf_sigStep = scr_sigStep" by (intro ext) (rule sigStep_same)
  then show ?thesis by (simp add: pdf_sigParse_def scr_sigParse_def)
qed

lemma sigScan_none:
  "list_all (\<lambda>l. \<not> includesStr l ''___'') ls \<Longrightarrow> n \<le> length ls \<Longrightarrow> sigScan n ls = length ls"
  by (induction n) (auto simp: list_all_length)

lemma sigLines_none:
  "list_all (\<lambda>l. \<not> includesStr l ''___'') ls \<Longrightarrow> sigLines ls = []"
  by (simp add: sigLines_def findSigStart_def sigScan_none)

text \<open>
  C3, as the code has it.  Neither renderer has an error branch in its signature code,
  whatever the lines.  For a name or title that the lines do not provide, the screen
  renderer shows the empty string, and leaves the whole block out when no name was parsed;
  the paginated renderer writes its fixed default in place of each missing field: Sam
  Joshi, Patricia Benedetto RMC, Council President, Municipal Clerk.  With no line holding
  three underscores there are no signature lines at all: the screen block is left out and
  all four defaults are written.
\<close>

theorem C3_missing_signature_fields:
  "(length (fst (scr_sigParse (sigLines lines))) = 0 \<longrightarrow> scr_signature lines = None)
   \<and> (0 < length (fst (scr_sigParse (sigLines lines))) \<longrightarrow>
        (\<exists>b. scr_signature lines = Some b
          \<and> (length (fst (scr_sigParse (sigLines lines))) \<le> 1 \<longrightarrow> rightName b = [])
          \<and> (length (snd (scr_sigParse (sigLines lines))) = 0 \<longrightarrow> leftTitle b = [])
          \<and> (length (snd (scr_sigParse (sigLines lines))) \<le> 1 \<longrightarrow> rightTitle b = [])))
   \<and> (length (fst (pdf_sigParse (sigLines lines))) = 0 \<longrightarrow>
        leftName (pdf_signature lines) = ''Sam Joshi'')
   \<and> (length (fst (pdf_sigParse (sigLines lines))) \<le> 1 \<longrightarrow>
        rightName (pdf_signature lines) = ''Patricia Benedetto, RMC'')
   \<and> (length (snd (pdf_sigParse (sigLines lines))) = 0 \<longrightarrow>
        leftTitle (pdf_signature lines) = ''Council President'')
   \<and> (length (snd (pdf_sigParse (sigLines lines))) \<le> 1 \<longrightarrow>
        rightTitle (pdf_signature lines) = ''Municipal Clerk'')
   \<and> (list_all (\<lambda>l. \<not> includesStr l ''___'') lines \<longrightarrow>
        scr_signature lines = None \<and>
        pdf_signature lines =
          \<lparr>leftName = ''Sam Joshi'', rightName = ''Patricia Benedetto, RMC'',
           leftTitle = ''Council President'', rightTitle = ''Municipal Clerk''\<rparr>)"
  by (auto simp: scr_signature_def pdf_signature_def orDefault_def Let_def sigLines_none
      pdf_sigParse_def scr_sigParse_def)

text \<open>
  The claim as stated fails in the paginated renderer: for a text without a signature
  section the four fields written are the defaults, not empty strings.
\<close>

theorem C3_counterexample:
  "sigLines (pdf_lines ''Minutes without a signature'') = []
   \<and> pdf_signature (pdf_lines ''Minutes without a signature'') =
       \<lparr>leftName = ''Sam Joshi'', rightName = ''Patricia Benedetto, RMC'',
        leftTitle = ''Council President'', rightTitle = ''Municipal Clerk''\<rparr>
   \<and> leftName (pdf_signature (pdf_lines ''Minutes without a signature'')) \<noteq> []"
proof -
  have l: "pdf_lines ''Minutes without a signature'' = [''Minutes without a signature'']"
    by (simp add: pdf_lines_def replaceTabs_def)
  have s: "sigLines [''Minutes without a signature''] = []"
    by (simp add: sigLines_def findSigStart_def)
  show ?thesis
    by (simp add: l s pdf_signature_def pdf_sigParse_def orDefault_def)
qed

theorem C3_missing_signature_fields_witness:
  "scr_signature [''Minutes'', ''___'', ''Jane Doe''] =
     Some \<lparr>leftName = ''Jane Doe'', rightName = [], leftTitle = [], rightTitle = []\<rparr>
   \<and> pdf_signature [''Minutes'', ''___'', ''Jane Doe''] =
     \<lparr>leftName = ''Jane Doe'', rightName = ''Patricia Benedetto, RMC'',
      leftTitle = ''Council President'', rightTitle = ''Municipal Clerk''\<rparr>
   \<and> scr_signature [''Minutes''] = None
   \<and> leftName (pdf_signature [''Minutes'']) = ''Sam Joshi''"
proof -
  have s: "sigLines [''Minutes'', ''___'', ''Jane Doe''] = [''___'', ''Jane Doe'']"
    by (simp add: sigLines_def findSigStart_def eval_nat_numeral)
  have sp: "splitWs4 [] ''Jane Doe'' = [''Jane Doe'']"
    by (simp add: isSpace_def)
  have p: "scr_sigParse [''___'', ''Jane Doe''] = ([''Jane Doe''], [])"
    by (simp add: scr_sigParse_def scr_sigStep_def Let_def trim_def isSpace_def sp)
  have q: "pdf_sigParse [''___'', ''Jane Doe''] = ([''Jane Doe''], [])"
    by (simp add: sigParse_same p)
  have n: "list_all (\<lambda>l. \<not> includesStr l ''___'') [''Minutes'']"
    by simp
  have l: "leftName (pdf_signature [''Minutes'', ''___'', ''Jane Doe'']) = ''Jane Doe''"
    by (simp add: pdf_signature_def s q orDefault_def)
  have sl: "\<exists>b. scr_signature [''Minutes'', ''___'', ''Jane Doe''] = Some b \<and> leftName b = ''Jane Doe''"
    by (simp add: scr_signature_def s p orDefault_def)
  note a = C3_missing_signature_fields [of "[''Minutes'', ''___'', ''Jane Doe'']", unfolded s p q]
  note b = C3_missing_signature_fields [of "[''Minutes'']"]
  have b1: "scr_signature [''Minutes''] = None" using b n by blast
  have b2: "leftName (pdf_signature [''Minutes'']) = ''Sam Joshi''" using b n by simp
  obtain blk where blk: "scr_signature [''Minutes'', ''___'', ''Jane Doe''] = Some blk"
     "rightName blk = []" "leftTitle blk = []" "rightTitle blk = []"
    using a by auto
  have blk2: "leftName blk = ''Jane Doe''" using sl blk(1) by simp
  have a1: "scr_signature [''Minutes'', ''___'', ''Jane Doe''] =
     Some \<lparr>leftName = ''Jane Doe'', rightName = [], leftTitle = [], rightTitle = []\<rparr>"
    using blk blk2 by (cases blk) simp
  have a2: "rightName (pdf_signature [''Minutes'', ''___'', ''Jane Doe'']) = ''Patricia Benedetto, RMC''"
    "leftTitle (pdf_signature [''Minutes'', ''___'', ''Jane Doe'']) = ''Council President''"
    "rightTitle (pdf_signature [''Minutes'', ''___'', ''Jane Doe'']) = ''Municipal Clerk''"
    using a by simp_all
  have a3: "pdf_signature [''Minutes'', ''___'', ''Jane Doe''] =
     \<lparr>leftName = ''Jane Doe'', rightName = ''Patricia Benedetto, RMC'',
      leftTitle = ''Council President'', rightTitle = ''Municipal Clerk''\<rparr>"
    using a2 l by (cases "pdf_signature [''Minutes'', ''___'', ''Jane Doe'']") simp
  show ?thesis using a1 a3 b1 b2 by simp
qed

subsection \<open>Page breaks\<close>

text \<open>
  A block written by \<^verbatim>\<open>writeText\<close> starts where its measured height fits above the
  bottom limit, whenever that height fits on an empty page: the measured height is what
  \<^verbatim>\<open>ensureSpace\<close> is asked for.
\<close>

lemma writeText_fits:
  assumes "hos b t w \<le> bottomLimit - marginTop"
  shows "boxTop (snd (writeText hos t x w centered b c)) + hos b t w \<le> bottomLimit"
  using assms by (auto simp: writeText_def ensureSpace_def startNewPage_def Let_def)

text \<open>
  A section header is placed with two line heights reserved, not its measured height: it
  stays on the current page whenever two lines fit, whatever the height of its text.
\<close>

lemma header_place:
  assumes "role e = SectionHeader" and "content e \<noteq> []"
    and "curY c + 2 * LINE_HEIGHT \<le> bottomLimit"
  shows "pdf_place hos c e =
    (c\<lparr>curY := curY c + hos True (content e) (contentWidth - SECTION_INDENT), curBold := True\<rparr>,
     [\<lparr>boxPage = pageNum c, boxTop = curY c,
       boxHeight = hos True (content e) (contentWidth - SECTION_INDENT),
       boxX = marginLeft + SECTION_INDENT, boxWidth = contentWidth - SECTION_INDENT,
       boxBold = True, boxCentered = False, boxText = content e\<rparr>])"
  using assms by (simp add: pdf_place_def ensureSpace_def Let_def)

lemma splitNL_blank: "splitNL (replicate n (CHR 0x0A) @ s) = replicate n [] @ splitNL s"
  by (induction n) simp_all

lemma replaceTabs_blank:
  "replaceTabs (replicate n (CHR 0x0A) @ s) = replicate n (CHR 0x0A) @ replaceTabs s"
  by (induction n) (simp_all add: replaceTabs_Cons)

lemma titleScan_none: "list_all (\<lambda>l. \<not> isTitleBoundary l) ls \<Longrightarrow> titleScan i ls = 0"
  by (induction ls arbitrary: i) simp_all

text \<open>Lines without a title boundary and without underscores are all body.\<close>

lemma plain_segments:
  assumes "list_all (\<lambda>l. \<not> isTitleBoundary l) ls" and "list_all (\<lambda>l. \<not> includesStr l ''___'') ls"
  shows "pdf_titleLines ls = []" and "scr_titleLines ls = []" and "bodyLines ls = ls"
proof -
  have te: "findTitleEnd ls = 0"
    using assms(1) by (simp add: findTitleEnd_def titleScan_none)
  have ss: "findSigStart ls = length ls"
    using assms(2) by (simp add: findSigStart_def sigScan_none)
  show "pdf_titleLines ls = []" by (simp add: pdf_titleLines_def slice_def te)
  show "scr_titleLines ls = []" by (simp add: scr_titleLines_def slice_def te)
  show "bodyLines ls = ls" by (simp add: bodyLines_def slice_def te ss)
qed

lemma blank_not_boundary: "\<not> isTitleBoundary []"
  by (simp add: isTitleBoundary_def trim_def)

lemma pdf_body_blank:
  "pdf_body st (replicate n [] @ ls) =
     replicate n (st, \<lparr>role = Blank, bold = False, indentLevel = 0, numText = [], content = []\<rparr>)
     @ pdf_body st ls"
  by (induction n) (simp_all add: pdf_step_def trim_def Let_def)

lemma scr_body_blank:
  "scr_body st (replicate n [] @ ls) =
     replicate n (st, \<lparr>role = Blank, bold = False, indentLevel = 0, numText = [], content = []\<rparr>)
     @ scr_body st ls"
  by (induction n) (simp_all add: scr_step_def trim_def Let_def)

lemma placeAll_blank:
  "pdf_placeAll hos c
     (replicate n \<lparr>role = Blank, bold = False, indentLevel = 0, numText = [], content = []\<rparr> @ es) =
   (fst (pdf_placeAll hos (c\<lparr>curY := curY c + real n * LINE_HEIGHT\<rparr>) es),
    replicate n (\<lparr>role = Blank, bold = False, indentLevel = 0, numText = [], content = []\<rparr>, [])
    @ snd (pdf_placeAll hos (c\<lparr>curY := curY c + real n * LINE_HEIGHT\<rparr>) es))"
proof (induction n arbitrary: c)
  case 0
  show ?case by simp
next
  case (Suc n)
  show ?case
    by (simp add: Suc pdf_place_def blankLine_def Let_def algebra_simps)
qed

lemma longHeader_lines: "pdf_lines longHeaderText = replicate 51 [] @ [longHeaderLine]"
proof -
  have "replaceTabs longHeaderLine = longHeaderLine"
    by (simp add: longHeaderLine_def longHeaderTitle_def replaceTabs_def)
  moreover have "splitNL longHeaderLine = [longHeaderLine]"
    by (simp add: longHeaderLine_def longHeaderTitle_def)
  ultimately show ?thesis
    by (simp add: pdf_lines_def longHeaderText_def replaceTabs_blank splitNL_blank)
qed

lemma longHeader_step:
  "pdf_step initState longHeaderLine =
     (\<lparr>insideSection = True, inDiscussion = False\<rparr>,
      \<lparr>role = SectionHeader, bold = True, indentLevel = 0, numText = ''1. '',
       content = longHeaderTitle\<rparr>)"
  by (simp add: longHeaderLine_def longHeaderTitle_def ev)

lemma longHeader_segments:
  "pdf_titleLines (replicate 51 [] @ [longHeaderLine]) = []"
  "bodyLines (replicate 51 [] @ [longHeaderLine]) = replicate 51 [] @ [longHeaderLine]"
proof -
  let ?ls = "replicate 51 [] @ [longHeaderLine]"
  have nb: "\<not> isTitleBoundary longHeaderLine"
    by (simp add: longHeaderLine_def longHeaderTitle_def isTitleBoundary_def trim_def isSpace_def)
  have nu: "\<not> includesStr longHeaderLine ''___''"
    by (simp add: longHeaderLine_def longHeaderTitle_def)
  have a: "list_all (\<lambda>l. \<not> isTitleBoundary l) ?ls"
    using nb blank_not_boundary by (simp add: list_all_iff)
  have b: "list_all (\<lambda>l. \<not> includesStr l ''___'') ?ls"
    using nu by (simp add: list_all_iff)
  show "pdf_titleLines ?ls = []" by (rule plain_segments(1) [OF a b])
  show "bodyLines ?ls = ?ls" by (rule plain_segments(3) [OF a b])
qed

text \<open>
  C7, where the code departs from it.  Fifty-one blank lines bring the position to 677
  points on page 1; two line heights still fit above the bottom limit of 706 points, so
  no page is opened for the section header that follows, and its text is set at 677
  with its full measured height.  Whenever that height is above 29 points (three lines or
  more) the block crosses the bottom limit.
\<close>

theorem C7_header_crosses_bottom_limit:
  assumes "29 < hos True longHeaderTitle (contentWidth - SECTION_INDENT)"
  shows "snd (pdf_layout hos longHeaderText) =
           [\<lparr>boxPage = 1, boxTop = 677,
             boxHeight = hos True longHeaderTitle (contentWidth - SECTION_INDENT),
             boxX = marginLeft + SECTION_INDENT, boxWidth = contentWidth - SECTION_INDENT,
             boxBold = True, boxCentered = False,
             boxText = longHeaderTitle\<rparr>]
         \<and> bottomLimit < 677 + hos True longHeaderTitle (contentWidth - SECTION_INDENT)"
proof -
  let ?blank = "\<lparr>role = Blank, bold = False, indentLevel = 0, numText = [], content = []\<rparr>"
  let ?hdr = "\<lparr>role = SectionHeader, bold = True, indentLevel = 0, numText = ''1. '',
       content = longHeaderTitle\<rparr>"
  let ?bx = "\<lparr>boxPage = 1, boxTop = 677,
             boxHeight = hos True longHeaderTitle (contentWidth - SECTION_INDENT),
             boxX = marginLeft + SECTION_INDENT, boxWidth = contentWidth - SECTION_INDENT,
             boxBold = True, boxCentered = False,
             boxText = longHeaderTitle\<rparr>"
  have body: "map snd (pdf_body initState (replicate 51 [] @ [longHeaderLine])) =
      replicate 51 ?blank @ [?hdr]"
    by (simp add: pdf_body_blank longHeader_step Let_def)
  have ne: "content ?hdr \<noteq> []" by (simp add: longHeaderTitle_def)
  have pl: "snd (pdf_place hos \<lparr>curY = 677, pageNum = 1, curBold = False\<rparr> ?hdr) = [?bx]"
    using header_place [of ?hdr "\<lparr>curY = 677, pageNum = 1, curBold = False\<rparr>" hos] ne
    by (simp add: LINE_HEIGHT_def bottomLimit_def)
  have "snd (pdf_pages hos longHeaderText) = replicate 51 (?blank, []) @ [(?hdr, [?bx])]"
    by (simp add: pdf_pages_def Let_def body longHeader_lines longHeader_segments placeAll_blank
        blankLine_def marginTop_def LINE_HEIGHT_def pl del: One_nat_def)
  then have "snd (pdf_layout hos longHeaderText) = [?bx]"
    by (simp add: pdf_layout_def)
  moreover have "bottomLimit < 677 + hos True longHeaderTitle (contentWidth - SECTION_INDENT)"
    using assms by (simp add: bottomLimit_def)
  ultimately show ?thesis by simp
qed

theorem C7_header_crosses_bottom_limit_witness:
  "snd (pdf_layout (\<lambda>b t w. 11 * real ((length t + 59) div 60)) longHeaderText) =
           [\<lparr>boxPage = 1, boxTop = 677, boxHeight = 44,
             boxX = marginLeft + SECTION_INDENT, boxWidth = contentWidth - SECTION_INDENT,
             boxBold = True, boxCentered = False, boxText = longHeaderTitle\<rparr>]
   \<and> bottomLimit < 677 + 44"
proof -
  have h: "11 * real ((length longHeaderTitle + 59) div 60) = 44"
    by (simp add: longHeaderTitle_def)
  have a: "29 < 11 * real ((length longHeaderTitle + 59) div 60)"
    by (simp add: h)
  show ?thesis
    using C7_header_crosses_bottom_limit [of "\<lambda>b t w. 11 * real ((length t + 59) div 60)"] a
    unfolding h by simp
qed

subsection \<open>The font after a page break\<close>

lemma boldBreak_lines:
  "scr_lines boldBreakText = boldBreakLines"
  "pdf_lines boldBreakText = boldBreakLines"
proof -
  have r: "replaceTabs (''1. X'' @ [CHR 0x0A] @ ''AB'' @ [CHR 0x0A] @ ''CD'')
      = ''1. X'' @ [CHR 0x0A] @ ''AB'' @ [CHR 0x0A] @ ''CD''"
    by (simp add: replaceTabs_def)
  have sp: "splitNL (''1. X'' @ [CHR 0x0A] @ ''AB'' @ [CHR 0x0A] @ ''CD'') = [''1. X'', ''AB'', ''CD'']"
    by simp
  show "scr_lines boldBreakText = boldBreakLines"
    using sp splitNL_blank [of 51 "''1. X'' @ [CHR 0x0A] @ ''AB'' @ [CHR 0x0A] @ ''CD''"]
    by (simp add: scr_lines_def boldBreakText_def boldBreakLines_def)
  show "pdf_lines boldBreakText = boldBreakLines"
    using sp r splitNL_blank [of 51 "''1. X'' @ [CHR 0x0A] @ ''AB'' @ [CHR 0x0A] @ ''CD''"]
      replaceTabs_blank [of 51 "''1. X'' @ [CHR 0x0A] @ ''AB'' @ [CHR 0x0A] @ ''CD''"]
    by (simp add: pdf_lines_def boldBreakText_def boldBreakLines_def)
qed

lemma boldBreak_segments:
  "pdf_titleLines boldBreakLines = []"
  "scr_titleLines boldBreakLines = []"
  "bodyLines boldBreakLines = boldBreakLines"
proof -
  have a: "list_all (\<lambda>l. \<not> isTitleBoundary l) boldBreakLines"
    using blank_not_boundary
    by (simp add: boldBreakLines_def list_all_iff isTitleBoundary_def trim_def isSpace_def)
  have b: "list_all (\<lambda>l. \<not> includesStr l ''___'') boldBreakLines"
    by (simp add: boldBreakLines_def list_all_iff)
  show "pdf_titleLines boldBreakLines = []" by (rule plain_segments(1) [OF a b])
  show "scr_titleLines boldBreakLines = []" by (rule plain_segments(2) [OF a b])
  show "bodyLines boldBreakLines = boldBreakLines" by (rule plain_segments(3) [OF a b])
qed

lemma boldBreak_steps:
  "pdf_step initState ''1. X'' =
     (\<lparr>insideSection = True, inDiscussion = False\<rparr>,
      \<lparr>role = SectionHeader, bold = True, indentLevel = 0, numText = ''1. '', content = ''X''\<rparr>)"
  "scr_step initState ''1. X'' =
     (\<lparr>insideSection = True, inDiscussion = False\<rparr>,
      \<lparr>role = SectionHeader, bold = True, indentLevel = 0, numText = ''1. '', content = ''X''\<rparr>)"
  "pdf_step \<lparr>insideSection = True, inDiscussion = False\<rparr> ''AB'' =
     (\<lparr>insideSection = True, inDiscussion = False\<rparr>,
      \<lparr>role = SectionBody, bold = True, indentLevel = 1, numText = [], content = ''AB''\<rparr>)"
  "scr_step \<lparr>insideSection = True, inDiscussion = False\<rparr> ''AB'' =
     (\<lparr>insideSection = True, inDiscussion = False\<rparr>,
      \<lparr>role = SectionBody, bold = True, indentLevel = 1, numText = [], content = ''AB''\<rparr>)"
  "pdf_step \<lparr>insideSection = True, inDiscussion = False\<rparr> ''CD'' =
     (\<lparr>insideSection = True, inDiscussion = False\<rparr>,
      \<lparr>role = SectionBody, bold = True, indentLevel = 1, numText = [], content = ''CD''\<rparr>)"
  "scr_step \<lparr>insideSection = True, inDiscussion = False\<rparr> ''CD'' =
     (\<lparr>insideSection = True, inDiscussion = False\<rparr>,
      \<lparr>role = SectionBody, bold = True, indentLevel = 1, numText = [], content = ''CD''\<rparr>)"
  by (simp_all add: ev)

text \<open>
  C1, where the code departs from it.  After fifty-one blank lines, a header and an
  indented line in capitals that still fit on page 1, the next indented line in capitals
  opens page 2.  Both renderers classify that line as bold section body, and the screen
  renderer shows it bold; the paginated renderer selects the bold font, then opens the
  page, whose footer and header select the regular font, and draws the line in the
  regular font.  So the two sequences of (role, bold, indent level) differ in their last
  element.  The hypotheses say where the page ends for the measure: the header and the
  first line take at most 29 points together, the three texts more than 29 points.
\<close>

theorem C1_bold_lost_at_page_break:
  assumes "hos True ''X'' (contentWidth - SECTION_INDENT)
           + hos True ''AB'' (contentWidth - SECTION_INDENT) \<le> 29"
    and "29 < hos True ''X'' (contentWidth - SECTION_INDENT)
           + hos True ''AB'' (contentWidth - SECTION_INDENT)
           + hos True ''CD'' (contentWidth - SECTION_INDENT)"
  shows "map triple (scr_traversal boldBreakText) =
           replicate 51 (Blank, False, 0) @
           [(SectionHeader, True, 0), (SectionBody, True, 1), (SectionBody, True, 1)]
       \<and> map triple (pdf_rows boldBreakText) = map triple (scr_traversal boldBreakText)
       \<and> pdf_drawn hos boldBreakText =
           replicate 51 (Blank, False, 0) @
           [(SectionHeader, True, 0), (SectionBody, True, 1), (SectionBody, False, 1)]
       \<and> map boxPage (snd (pdf_layout hos boldBreakText)) = [1, 1, 2]
       \<and> map boxBold (snd (pdf_layout hos boldBreakText)) = [True, True, False]
       \<and> pdf_drawn hos boldBreakText \<noteq> map triple (scr_traversal boldBreakText)"
proof -
  let ?w = "contentWidth - SECTION_INDENT"
  let ?blank = "\<lparr>role = Blank, bold = False, indentLevel = 0, numText = [], content = []\<rparr>"
  let ?hdr = "\<lparr>role = SectionHeader, bold = True, indentLevel = 0, numText = ''1. '', content = ''X''\<rparr>"
  let ?ab = "\<lparr>role = SectionBody, bold = True, indentLevel = 1, numText = [], content = ''AB''\<rparr>"
  let ?cd = "\<lparr>role = SectionBody, bold = True, indentLevel = 1, numText = [], content = ''CD''\<rparr>"
  let ?c0 = "\<lparr>curY = 677, pageNum = 1, curBold = False\<rparr>"
  let ?c1 = "\<lparr>curY = 677 + hos True ''X'' ?w, pageNum = 1, curBold = True\<rparr>"
  let ?c2 = "\<lparr>curY = 677 + hos True ''X'' ?w + hos True ''AB'' ?w, pageNum = 1, curBold = True\<rparr>"
  have sb: "map snd (scr_body initState boldBreakLines) = replicate 51 ?blank @ [?hdr, ?ab, ?cd]"
    by (simp add: boldBreakLines_def scr_body_blank boldBreak_steps Let_def)
  have pb: "map snd (pdf_body initState boldBreakLines) = replicate 51 ?blank @ [?hdr, ?ab, ?cd]"
    by (simp add: boldBreakLines_def pdf_body_blank boldBreak_steps Let_def)
  have scr: "map triple (scr_traversal boldBreakText) =
           replicate 51 (Blank, False, 0) @
           [(SectionHeader, True, 0), (SectionBody, True, 1), (SectionBody, True, 1)]"
    by (simp add: scr_traversal_def Let_def boldBreak_lines boldBreak_segments sb triple_def)
  have rows: "map triple (pdf_rows boldBreakText) =
           replicate 51 (Blank, False, 0) @
           [(SectionHeader, True, 0), (SectionBody, True, 1), (SectionBody, True, 1)]"
    by (simp add: pdf_rows_def Let_def boldBreak_lines boldBreak_segments pb triple_def)
  have p1: "pdf_place hos ?c0 ?hdr =
      (?c1, [\<lparr>boxPage = 1, boxTop = 677, boxHeight = hos True ''X'' ?w,
        boxX = marginLeft + SECTION_INDENT, boxWidth = ?w,
        boxBold = True, boxCentered = False, boxText = ''X''\<rparr>])"
    using header_place [of ?hdr ?c0 hos] by (simp add: LINE_HEIGHT_def bottomLimit_def)
  have p2: "pdf_place hos ?c1 ?ab =
      (?c2, [\<lparr>boxPage = 1, boxTop = 677 + hos True ''X'' ?w, boxHeight = hos True ''AB'' ?w,
        boxX = marginLeft + SECTION_INDENT, boxWidth = ?w,
        boxBold = True, boxCentered = False, boxText = ''AB''\<rparr>])"
    using assms(1)
    by (simp add: pdf_place_def writeText_def ensureSpace_def Let_def bottomLimit_def)
  have p3: "pdf_place hos ?c2 ?cd =
      (\<lparr>curY = marginTop + hos False ''CD'' ?w, pageNum = 2, curBold = False\<rparr>,
       [\<lparr>boxPage = 2, boxTop = marginTop, boxHeight = hos False ''CD'' ?w,
        boxX = marginLeft + SECTION_INDENT, boxWidth = ?w,
        boxBold = False, boxCentered = False, boxText = ''CD''\<rparr>])"
    using assms(2)
    by (simp add: pdf_place_def writeText_def ensureSpace_def startNewPage_def Let_def
        bottomLimit_def)
  have pages: "snd (pdf_pages hos boldBreakText) =
      replicate 51 (?blank, []) @
      [(?hdr, snd (pdf_place hos ?c0 ?hdr)), (?ab, snd (pdf_place hos ?c1 ?ab)),
       (?cd, snd (pdf_place hos ?c2 ?cd))]"
    by (simp add: pdf_pages_def Let_def boldBreak_lines boldBreak_segments pb placeAll_blank
        blankLine_def marginTop_def LINE_HEIGHT_def p1 p2 p3 del: One_nat_def)
  have dr: "pdf_drawn hos boldBreakText =
           replicate 51 (Blank, False, 0) @
           [(SectionHeader, True, 0), (SectionBody, True, 1), (SectionBody, False, 1)]"
    by (simp add: pdf_drawn_def pages drawn_def p1 p2 p3 del: One_nat_def)
  have bp: "map boxPage (snd (pdf_layout hos boldBreakText)) = [1, 1, 2]"
    by (simp add: pdf_layout_def pages p1 p2 p3 del: One_nat_def)
  have bb: "map boxBold (snd (pdf_layout hos boldBreakText)) = [True, True, False]"
    by (simp add: pdf_layout_def pages p1 p2 p3 del: One_nat_def)
  have ne: "pdf_drawn hos boldBreakText \<noteq> map triple (scr_traversal boldBreakText)"
    by (simp add: dr scr)
  show ?thesis using scr rows dr bp bb ne by simp
qed

theorem C1_bold_lost_at_page_break_witness:
  "map triple (scr_traversal boldBreakText) ! 53 = (SectionBody, True, 1)
   \<and> pdf_drawn (\<lambda>b t w. 11) boldBreakText ! 53 = (SectionBody, False, 1)
   \<and> map boxPage (snd (pdf_layout (\<lambda>b t w. 11) boldBreakText)) = [1, 1, 2]
   \<and> map boxBold (snd (pdf_layout (\<lambda>b t w. 11) boldBreakText)) = [True, True, False]"
proof -
  have a: "(11::real) + 11 \<le> 29" "(29::real) < 11 + 11 + 11"
    by simp_all
  note c = C1_bold_lost_at_page_break [of "\<lambda>b t w. 11", OF a]
  have s: "map triple (scr_traversal boldBreakText) ! 53 = (SectionBody, True, 1)"
    using c by (simp add: nth_append)
  have d: "pdf_drawn (\<lambda>b t w. 11) boldBreakText ! 53 = (SectionBody, False, 1)"
    using c by (simp add: nth_append)
  show ?thesis using s d c by simp
qed

subsection \<open>Overlapping regions\<close>

lemma startsWith_iff: "startsWith s n = (\<exists>ys. s = n @ ys)"
  by (induction s n rule: startsWith.induct) auto

lemma includesStr_iff: "includesStr s n = (\<exists>xs ys. s = xs @ n @ ys)"
proof (induction s)
  case Nil
  show ?case by auto
next
  case (Cons c cs)
  have "(\<exists>xs ys. c # cs = xs @ n @ ys) = ((\<exists>ys. c # cs = n @ ys) \<or> (\<exists>xs ys. cs = xs @ n @ ys))"
  proof
    assume "\<exists>xs ys. c # cs = xs @ n @ ys"
    then obtain xs ys where e: "c # cs = xs @ n @ ys" by blast
    show "(\<exists>ys. c # cs = n @ ys) \<or> (\<exists>xs ys. cs = xs @ n @ ys)"
    proof (cases xs)
      case Nil
      with e show ?thesis by auto
    next
      case (Cons x xs')
      with e have "cs = xs' @ n @ ys" by simp
      then show ?thesis by blast
    qed
  next
    assume "(\<exists>ys. c # cs = n @ ys) \<or> (\<exists>xs ys. cs = xs @ n @ ys)"
    then show "\<exists>xs ys. c # cs = xs @ n @ ys"
    proof
      assume "\<exists>ys. c # cs = n @ ys"
      then obtain ys where "c # cs = [] @ n @ ys" by auto
      then show ?thesis by blast
    next
      assume "\<exists>xs ys. cs = xs @ n @ ys"
      then obtain xs ys where "c # cs = (c # xs) @ n @ ys" by auto
      then show ?thesis by blast
    qed
  qed
  then show ?case using Cons by (simp add: startsWith_iff)
qed

lemma dropWhile_keeps:
  assumes "n \<noteq> []" and "\<not> isSpace (hd n)"
  shows "\<exists>xs'. dropWhile isSpace (xs @ n @ ys) = xs' @ n @ ys"
proof (induction xs)
  case Nil
  obtain a r where "n = a # r" using assms(1) by (cases n) auto
  then have "dropWhile isSpace ([] @ n @ ys) = [] @ n @ ys" using assms(2) by simp
  then show ?case by blast
next
  case (Cons x xs)
  show ?case
  proof (cases "isSpace x")
    case True
    then show ?thesis using Cons by simp
  next
    case False
    then have "dropWhile isSpace ((x # xs) @ n @ ys) = (x # xs) @ n @ ys" by simp
    then show ?thesis by blast
  qed
qed

lemma trim_infix: "\<exists>a b. s = a @ trim s @ b"
proof -
  let ?d = "dropWhile isSpace s"
  have "rev (takeWhile isSpace (rev ?d) @ dropWhile isSpace (rev ?d)) = rev (rev ?d)"
    by (simp only: takeWhile_dropWhile_id)
  then have "rev (dropWhile isSpace (rev ?d)) @ rev (takeWhile isSpace (rev ?d)) = ?d"
    by (simp only: rev_append rev_rev_ident)
  then have "?d = trim s @ rev (takeWhile isSpace (rev ?d))"
    by (simp only: trim_def)
  moreover have "s = takeWhile isSpace s @ ?d"
    by (simp only: takeWhile_dropWhile_id)
  ultimately have "s = takeWhile isSpace s @ trim s @ rev (takeWhile isSpace (rev ?d))"
    by metis
  then show ?thesis by blast
qed

text \<open>Trimming neither creates nor removes an occurrence of three underscores.\<close>

lemma includes_trim: "includesStr (trim s) ''___'' = includesStr s ''___''"
proof
  assume "includesStr (trim s) ''___''"
  then obtain xs ys where t: "trim s = xs @ ''___'' @ ys" by (auto simp: includesStr_iff)
  obtain a b where "s = a @ trim s @ b" using trim_infix by blast
  with t have "s = (a @ xs) @ ''___'' @ (ys @ b)" by simp
  then show "includesStr s ''___''" unfolding includesStr_iff by blast
next
  assume "includesStr s ''___''"
  then obtain xs ys where e: "s = xs @ ''___'' @ ys" by (auto simp: includesStr_iff)
  have u: "\<not> isSpace (hd ''___'')" "''___'' \<noteq> []" by (simp_all add: isSpace_def)
  obtain xs' where d: "dropWhile isSpace s = xs' @ ''___'' @ ys"
    using dropWhile_keeps [OF u(2) u(1), of xs ys] e by auto
  then have "rev (dropWhile isSpace s) = rev ys @ ''___'' @ rev xs'" by simp
  moreover obtain ys' where "dropWhile isSpace (rev ys @ ''___'' @ rev xs') = ys' @ ''___'' @ rev xs'"
    using dropWhile_keeps [OF u(2) u(1), of "rev ys" "rev xs'"] by auto
  ultimately have "trim s = rev (ys' @ ''___'' @ rev xs')" by (simp add: trim_def)
  then have "trim s = xs' @ ''___'' @ rev ys'" by simp
  then show "includesStr (trim s) ''___''" unfolding includesStr_iff by blast
qed

lemma sigStep_prefix: "\<exists>xs. fst (pdf_sigStep acc l) = fst acc @ xs"
  by (auto simp: pdf_sigStep_def Let_def)

lemma sigFold_prefix: "\<exists>xs. fst (foldl pdf_sigStep acc ls) = fst acc @ xs"
proof (induction ls arbitrary: acc)
  case Nil
  show ?case by simp
next
  case (Cons l ls)
  obtain xs where a: "fst (pdf_sigStep acc l) = fst acc @ xs" using sigStep_prefix by blast
  obtain ys where "fst (foldl pdf_sigStep (pdf_sigStep acc l) ls) = fst (pdf_sigStep acc l) @ ys"
    using Cons by blast
  with a have "fst (foldl pdf_sigStep acc (l # ls)) = fst acc @ (xs @ ys)" by simp
  then show ?case by blast
qed

text \<open>
  The first signature candidate after the underscore line, when it is not blank, has no
  underscores and no run of four white-space characters, is the first parsed name.
\<close>

lemma first_candidate:
  assumes "includesStr l0 ''___''" and "trim l1 \<noteq> []" and "\<not> includesStr l1 ''___''"
    and "splitWs4 [] (trim l1) = [trim l1]"
  shows "\<exists>xs. fst (pdf_sigParse (l0 # l1 # rest)) = trim l1 # xs"
proof -
  have s0: "pdf_sigStep ([], []) l0 = ([], [])"
    using assms(1) by (simp add: pdf_sigStep_def Let_def includes_trim)
  have s1: "pdf_sigStep ([], []) l1 = ([trim l1], [])"
    using assms(2,3,4) by (simp add: pdf_sigStep_def Let_def includes_trim)
  obtain xs where "fst (foldl pdf_sigStep ([trim l1], []) rest) = fst ([trim l1], []) @ xs"
    using sigFold_prefix [of "([trim l1], [])" rest] by auto
  then have "fst (pdf_sigParse (l0 # l1 # rest)) = trim l1 # xs"
    by (simp add: pdf_sigParse_def s0 s1)
  then show ?thesis by blast
qed

lemma place_title:
  assumes "role e = Title"
  shows "\<exists>bx. snd (pdf_place hos c e) = [bx] \<and> boxText bx = content e \<and> boxCentered bx
           \<and> boxX bx = marginLeft \<and> boxWidth bx = contentWidth"
  using assms by (simp add: pdf_place_def Let_def writeText_text)

lemma placeAll_member:
  "e \<in> set es \<Longrightarrow> \<exists>c'. (e, snd (pdf_place hos c' e)) \<in> set (snd (pdf_placeAll hos c es))"
proof (induction es arbitrary: c)
  case Nil
  then show ?case by simp
next
  case (Cons x es)
  show ?case
  proof (cases "e = x")
    case True
    then have "(e, snd (pdf_place hos c e)) \<in> set (snd (pdf_placeAll hos c (x # es)))"
      by (simp add: Let_def)
    then show ?thesis by blast
  next
    case False
    with Cons.prems have "e \<in> set es" by simp
    then obtain c' where
      "(e, snd (pdf_place hos c' e)) \<in> set (snd (pdf_placeAll hos (fst (pdf_place hos c x)) es))"
      using Cons.IH by blast
    then have "(e, snd (pdf_place hos c' e)) \<in> set (snd (pdf_placeAll hos c (x # es)))"
      by (simp add: Let_def)
    then show ?thesis by blast
  qed
qed

text \<open>
  C8, as the code has it.  Where the last line with three underscores lies strictly above
  the title boundary, the body of both renderers is empty, and every non-blank line from
  the underscore line up to the boundary lies in two regions.  It is a title line: the
  screen renderer has a title element with the trimmed line, and the paginated renderer
  draws a centred block with the trimmed line in its title block, for every measure and
  starting position.  And it is one of the signature candidate lines.  Of the candidates
  only the parsed names and titles reach the signature block: the first line after the
  underscore line, when it is not blank and has no run of four white-space characters, is
  shown as the left name by both renderers.
\<close>

theorem C8_signature_above_title:
  assumes "b < length lines" and "isTitleBoundary (lines ! b)"
    and "list_all (\<lambda>l. \<not> isTitleBoundary l) (take b lines)"
    and "u < b" and "includesStr (lines ! u) ''___''"
    and "list_all (\<lambda>l. \<not> includesStr l ''___'') (drop (Suc u) lines)"
  shows "findTitleEnd lines = b \<and> findSigStart lines = u
    \<and> bodyLines lines = []
    \<and> pdf_body initState (bodyLines lines) = [] \<and> scr_body initState (bodyLines lines) = []
    \<and> (\<forall>i. u \<le> i \<and> i < b \<and> trim (lines ! i) \<noteq> [] \<longrightarrow>
          lines ! i \<in> set (pdf_titleLines lines) \<and> lines ! i \<in> set (scr_titleLines lines)
          \<and> \<lparr>role = Title, bold = True, indentLevel = 0, numText = [],
              content = trim (lines ! i)\<rparr> \<in> set (map titleRow (scr_titleLines lines))
          \<and> (\<exists>bx. (\<lparr>role = Title, bold = True, indentLevel = 0, numText = [],
                      content = trim (lines ! i)\<rparr>, [bx])
                      \<in> set (snd (pdf_placeAll hos c (map titleRow (pdf_titleLines lines))))
                   \<and> boxText bx = trim (lines ! i) \<and> boxCentered bx)
          \<and> i - u < length (sigLines lines) \<and> sigLines lines ! (i - u) = lines ! i)
    \<and> (Suc u < b \<and> trim (lines ! Suc u) \<noteq> [] \<and>
        splitWs4 [] (trim (lines ! Suc u)) = [trim (lines ! Suc u)] \<longrightarrow>
          leftName (pdf_signature lines) = trim (lines ! Suc u)
          \<and> (\<exists>blk. scr_signature lines = Some blk \<and> leftName blk = trim (lines ! Suc u)))"
proof -
  have te: "findTitleEnd lines = b"
    using titleScan_first [OF assms(1,2,3), of 0] by (simp add: findTitleEnd_def)
  have ss: "findSigStart lines = u"
    using assms by (simp add: findSigStart_def sigScan_last)
  have bl: "bodyLines lines = []"
    using assms(4) by (simp add: bodyLines_def slice_def te ss)
  have mem: "lines ! i \<in> set (pdf_titleLines lines) \<and> lines ! i \<in> set (scr_titleLines lines)
          \<and> \<lparr>role = Title, bold = True, indentLevel = 0, numText = [],
              content = trim (lines ! i)\<rparr> \<in> set (map titleRow (scr_titleLines lines))
          \<and> (\<exists>bx. (\<lparr>role = Title, bold = True, indentLevel = 0, numText = [],
                      content = trim (lines ! i)\<rparr>, [bx])
                      \<in> set (snd (pdf_placeAll hos c (map titleRow (pdf_titleLines lines))))
                   \<and> boxText bx = trim (lines ! i) \<and> boxCentered bx)
          \<and> i - u < length (sigLines lines) \<and> sigLines lines ! (i - u) = lines ! i"
    if h: "u \<le> i \<and> i < b \<and> trim (lines ! i) \<noteq> []" for i
  proof -
    let ?row = "\<lparr>role = Title, bold = True, indentLevel = 0, numText = [],
              content = trim (lines ! i)\<rparr>"
    have "take b lines ! i = lines ! i" "i < length (take b lines)"
      using h assms(1) by simp_all
    then have t: "lines ! i \<in> set (take b lines)" by (metis nth_mem)
    have m: "lines ! i \<in> set (pdf_titleLines lines)" "lines ! i \<in> set (scr_titleLines lines)"
      using t h by (simp_all add: pdf_titleLines_def scr_titleLines_def slice_def te)
    have row: "titleRow (lines ! i) = ?row" by (simp add: titleRow_def)
    have r1: "?row \<in> set (map titleRow (scr_titleLines lines))"
      using m(2) row by (metis imageI set_map)
    have r2: "?row \<in> set (map titleRow (pdf_titleLines lines))"
      using m(1) row by (metis imageI set_map)
    obtain c' where p: "(?row, snd (pdf_place hos c' ?row))
        \<in> set (snd (pdf_placeAll hos c (map titleRow (pdf_titleLines lines))))"
      using placeAll_member [OF r2] by blast
    obtain bx where bx: "snd (pdf_place hos c' ?row) = [bx]" "boxText bx = content ?row"
        "boxCentered bx"
      using place_title [of ?row hos c'] by auto
    have r3: "\<exists>bx. (?row, [bx]) \<in> set (snd (pdf_placeAll hos c (map titleRow (pdf_titleLines lines))))
                   \<and> boxText bx = trim (lines ! i) \<and> boxCentered bx"
      using p bx by auto
    have sg: "i - u < length (sigLines lines) \<and> sigLines lines ! (i - u) = lines ! i"
      using h assms(1,4) by (auto simp: ss sigLines_def)
    show ?thesis using m r1 r3 sg by blast
  qed
  have sig: "leftName (pdf_signature lines) = trim (lines ! Suc u)
          \<and> (\<exists>blk. scr_signature lines = Some blk \<and> leftName blk = trim (lines ! Suc u))"
    if h: "Suc u < b \<and> trim (lines ! Suc u) \<noteq> [] \<and>
        splitWs4 [] (trim (lines ! Suc u)) = [trim (lines ! Suc u)]"
  proof -
    have len: "Suc u < length lines" using h assms(1) by simp
    have sl: "sigLines lines = lines ! u # lines ! Suc u # drop (Suc (Suc u)) lines"
      using len by (simp add: sigLines_def ss Cons_nth_drop_Suc)
    have "lines ! Suc u \<in> set (drop (Suc u) lines)"
      using len by (metis Cons_nth_drop_Suc list.set_intros(1))
    then have nu: "\<not> includesStr (lines ! Suc u) ''___''"
      using assms(6) by (simp add: list_all_iff)
    obtain xs where n: "fst (pdf_sigParse (sigLines lines)) = trim (lines ! Suc u) # xs"
      using first_candidate [OF assms(5) _ nu, of "drop (Suc (Suc u)) lines"] h sl by auto
    then have n': "fst (scr_sigParse (sigLines lines)) = trim (lines ! Suc u) # xs"
      by (simp add: sigParse_same)
    have "leftName (pdf_signature lines) = trim (lines ! Suc u)"
      using n h by (simp add: pdf_signature_def orDefault_def Let_def)
    moreover have "\<exists>blk. scr_signature lines = Some blk \<and> leftName blk = trim (lines ! Suc u)"
      using n' h by (simp add: scr_signature_def orDefault_def Let_def)
    ultimately show ?thesis by simp
  qed
  show ?thesis using te ss bl mem sig by simp
qed

text \<open>
  The claim as stated fails: of the lines between the underscore line and the title
  boundary only the first four parsed strings are shown in the signature block.  Here
  the line E is a title line and a signature candidate, and no field of either signature
  block shows it, so it appears in the output once.
\<close>

theorem C8_counterexample:
  "findSigStart [''____'', ''A'', ''B'', ''C'', ''D'', ''E'', ''A Regular Meeting'', ''text''] = 0
   \<and> findTitleEnd [''____'', ''A'', ''B'', ''C'', ''D'', ''E'', ''A Regular Meeting'', ''text''] = 6
   \<and> ''E'' \<in> set (pdf_titleLines [''____'', ''A'', ''B'', ''C'', ''D'', ''E'', ''A Regular Meeting'', ''text''])
   \<and> ''E'' \<in> set (scr_titleLines [''____'', ''A'', ''B'', ''C'', ''D'', ''E'', ''A Regular Meeting'', ''text''])
   \<and> ''E'' \<in> set (sigLines [''____'', ''A'', ''B'', ''C'', ''D'', ''E'', ''A Regular Meeting'', ''text''])
   \<and> pdf_signature [''____'', ''A'', ''B'', ''C'', ''D'', ''E'', ''A Regular Meeting'', ''text''] =
       \<lparr>leftName = ''A'', rightName = ''B'', leftTitle = ''C'', rightTitle = ''D''\<rparr>
   \<and> scr_signature [''____'', ''A'', ''B'', ''C'', ''D'', ''E'', ''A Regular Meeting'', ''text''] =
       Some \<lparr>leftName = ''A'', rightName = ''B'', leftTitle = ''C'', rightTitle = ''D''\<rparr>"
proof -
  let ?ls = "[''____'', ''A'', ''B'', ''C'', ''D'', ''E'', ''A Regular Meeting'', ''text'']"
  have ss: "findSigStart ?ls = 0"
    by (simp add: findSigStart_def eval_nat_numeral)
  have te: "findTitleEnd ?ls = 6"
    by (simp add: findTitleEnd_def isTitleBoundary_def trim_def isSpace_def)
  have tr: "trim ''____'' = ''____''" "trim ''A'' = ''A''" "trim ''B'' = ''B''" "trim ''C'' = ''C''"
    "trim ''D'' = ''D''" "trim ''E'' = ''E''" "trim ''text'' = ''text''"
    "trim ''A Regular Meeting'' = ''A Regular Meeting''"
    by (simp_all add: trim_def isSpace_def)
  have tk: "slice 0 6 ?ls = [''____'', ''A'', ''B'', ''C'', ''D'', ''E'']"
    by (simp add: slice_def)
  have tl: "pdf_titleLines ?ls = [''____'', ''A'', ''B'', ''C'', ''D'', ''E'']"
      "scr_titleLines ?ls = [''____'', ''A'', ''B'', ''C'', ''D'', ''E'']"
    by (simp_all add: pdf_titleLines_def scr_titleLines_def te tk tr)
  have sl: "sigLines ?ls = ?ls" by (simp add: sigLines_def ss)
  have sp: "splitWs4 [] ''A'' = [''A'']" "splitWs4 [] ''B'' = [''B'']" "splitWs4 [] ''C'' = [''C'']"
    "splitWs4 [] ''D'' = [''D'']" "splitWs4 [] ''E'' = [''E'']" "splitWs4 [] ''text'' = [''text'']"
    "splitWs4 [] ''A Regular Meeting'' = [''A Regular Meeting'']"
    by (simp_all add: isSpace_def)
  have st: "pdf_sigStep ([], []) ''____'' = ([], [])"
      "pdf_sigStep ([], []) ''A'' = ([''A''], [])"
      "pdf_sigStep ([''A''], []) ''B'' = ([''A'', ''B''], [])"
      "pdf_sigStep ([''A'', ''B''], []) ''C'' = ([''A'', ''B''], [''C''])"
      "pdf_sigStep ([''A'', ''B''], [''C'']) ''D'' = ([''A'', ''B''], [''C'', ''D''])"
      "pdf_sigStep ([''A'', ''B''], [''C'', ''D'']) ''E'' = ([''A'', ''B''], [''C'', ''D'', ''E''])"
      "pdf_sigStep ([''A'', ''B''], [''C'', ''D'', ''E'']) ''A Regular Meeting'' =
         ([''A'', ''B''], [''C'', ''D'', ''E'', ''A Regular Meeting''])"
      "pdf_sigStep ([''A'', ''B''], [''C'', ''D'', ''E'', ''A Regular Meeting'']) ''text'' =
         ([''A'', ''B''], [''C'', ''D'', ''E'', ''A Regular Meeting'', ''text''])"
    by (simp_all add: pdf_sigStep_def Let_def tr sp isSpace_def)
  have pp: "pdf_sigParse ?ls =
      ([''A'', ''B''], [''C'', ''D'', ''E'', ''A Regular Meeting'', ''text''])"
    by (simp add: pdf_sigParse_def st)
  have ps: "scr_sigParse ?ls =
      ([''A'', ''B''], [''C'', ''D'', ''E'', ''A Regular Meeting'', ''text''])"
    using pp by (simp add: sigParse_same)
  have p: "pdf_signature ?ls =
       \<lparr>leftName = ''A'', rightName = ''B'', leftTitle = ''C'', rightTitle = ''D''\<rparr>"
    by (simp add: pdf_signature_def sl pp orDefault_def)
  have q: "scr_signature ?ls =
       Some \<lparr>leftName = ''A'', rightName = ''B'', leftTitle = ''C'', rightTitle = ''D''\<rparr>"
    by (simp add: scr_signature_def sl ps orDefault_def)
  have e: "''E'' \<in> set [''____'', ''A'', ''B'', ''C'', ''D'', ''E'']"
      "''E'' \<in> set ?ls"
    by simp_all
  show ?thesis using ss te p q e by (simp add: tl sl)
qed

theorem C8_signature_above_title_witness:
  "bodyLines [''____'', ''Clerk'', ''A Regular Meeting'', ''text''] = []
   \<and> \<lparr>role = Title, bold = True, indentLevel = 0, numText = [], content = ''Clerk''\<rparr>
       \<in> set (map titleRow (scr_titleLines [''____'', ''Clerk'', ''A Regular Meeting'', ''text'']))
   \<and> (\<exists>bx. (\<lparr>role = Title, bold = True, indentLevel = 0, numText = [], content = ''Clerk''\<rparr>, [bx])
          \<in> set (snd (pdf_placeAll (\<lambda>b t w. 11) \<lparr>curY = 94, pageNum = 1, curBold = False\<rparr>
                (map titleRow (pdf_titleLines [''____'', ''Clerk'', ''A Regular Meeting'', ''text'']))))
        \<and> boxText bx = ''Clerk'' \<and> boxCentered bx)
   \<and> sigLines [''____'', ''Clerk'', ''A Regular Meeting'', ''text''] ! 1 = ''Clerk''
   \<and> leftName (pdf_signature [''____'', ''Clerk'', ''A Regular Meeting'', ''text'']) = ''Clerk''
   \<and> (\<exists>blk. scr_signature [''____'', ''Clerk'', ''A Regular Meeting'', ''text''] = Some blk
        \<and> leftName blk = ''Clerk'')"
proof -
  let ?ls = "[''____'', ''Clerk'', ''A Regular Meeting'', ''text'']"
  have h1: "2 < length ?ls" by simp
  have h2: "isTitleBoundary (?ls ! 2)" by (simp add: isTitleBoundary_def trim_def isSpace_def)
  have h3: "list_all (\<lambda>l. \<not> isTitleBoundary l) (take 2 ?ls)"
    by (simp add: isTitleBoundary_def trim_def isSpace_def numeral_2_eq_2)
  have h4: "(0::nat) < 2" by simp
  have h5: "includesStr (?ls ! 0) ''___''" by simp
  have h6: "list_all (\<lambda>l. \<not> includesStr l ''___'') (drop (Suc 0) ?ls)" by simp
  have t: "trim (?ls ! 1) = ''Clerk''" by (simp add: trim_def isSpace_def)
  have sp: "splitWs4 [] ''Clerk'' = [''Clerk'']" by (simp add: isSpace_def)
  note c = C8_signature_above_title [OF h1 h2 h3 h4 h5 h6,
      of "\<lambda>b t w. 11" "\<lparr>curY = 94, pageNum = 1, curBold = False\<rparr>"]
  from c have b: "bodyLines ?ls = []" by blast
  from c have "(0::nat) \<le> 1 \<and> (1::nat) < 2 \<and> trim (?ls ! 1) \<noteq> [] \<longrightarrow>
      \<lparr>role = Title, bold = True, indentLevel = 0, numText = [],
        content = trim (?ls ! 1)\<rparr> \<in> set (map titleRow (scr_titleLines ?ls))
      \<and> (\<exists>bx. (\<lparr>role = Title, bold = True, indentLevel = 0, numText = [],
                  content = trim (?ls ! 1)\<rparr>, [bx])
                 \<in> set (snd (pdf_placeAll (\<lambda>b t w. 11) \<lparr>curY = 94, pageNum = 1, curBold = False\<rparr>
                       (map titleRow (pdf_titleLines ?ls))))
               \<and> boxText bx = trim (?ls ! 1) \<and> boxCentered bx)
      \<and> sigLines ?ls ! (1 - 0) = ?ls ! 1"
    by blast
  then have m: "\<lparr>role = Title, bold = True, indentLevel = 0, numText = [],
        content = ''Clerk''\<rparr> \<in> set (map titleRow (scr_titleLines ?ls))
      \<and> (\<exists>bx. (\<lparr>role = Title, bold = True, indentLevel = 0, numText = [],
                  content = ''Clerk''\<rparr>, [bx])
                 \<in> set (snd (pdf_placeAll (\<lambda>b t w. 11) \<lparr>curY = 94, pageNum = 1, curBold = False\<rparr>
                       (map titleRow (pdf_titleLines ?ls))))
               \<and> boxText bx = ''Clerk'' \<and> boxCentered bx)
      \<and> sigLines ?ls ! 1 = ''Clerk''"
    unfolding t by simp
  from c have "Suc 0 < 2 \<and> trim (?ls ! Suc 0) \<noteq> [] \<and>
        splitWs4 [] (trim (?ls ! Suc 0)) = [trim (?ls ! Suc 0)] \<longrightarrow>
          leftName (pdf_signature ?ls) = trim (?ls ! Suc 0)
          \<and> (\<exists>blk. scr_signature ?ls = Some blk \<and> leftName blk = trim (?ls ! Suc 0))"
    by blast
  then have s: "leftName (pdf_signature ?ls) = ''Clerk''
      \<and> (\<exists>blk. scr_signature ?ls = Some blk \<and> leftName blk = ''Clerk'')"
    using t sp by simp
  show ?thesis using b m s by blast
qed

end
